theory Spec2Isabelle
  imports Complex_Main
begin

unbundle bit_operations_syntax

section \<open>Host side: JavaScript 32-bit integer operators\<close>

text \<open>
  The bitwise operators of JavaScript convert their operands to signed 32-bit integers,
  take the shift count modulo 32 and return a signed 32-bit integer.
\<close>

definition toInt32 :: "int \<Rightarrow> int" where
  "toInt32 x = signed_take_bit 31 x"

text \<open>\<open>x << n\<close>\<close>
definition js_shl :: "int \<Rightarrow> nat \<Rightarrow> int" where
  "js_shl x n = toInt32 (push_bit (n mod 32) (toInt32 x))"

text \<open>\<open>x >> n\<close>\<close>
definition js_sar :: "int \<Rightarrow> nat \<Rightarrow> int" where
  "js_sar x n = drop_bit (n mod 32) (toInt32 x)"

text \<open>\<open>x & y\<close>\<close>
definition js_and :: "int \<Rightarrow> int \<Rightarrow> int" where
  "js_and x y = toInt32 x AND toInt32 y"

text \<open>\<open>Math.floor(span/2)\<close> and \<open>Math.ceil(span/2)\<close>: the quotient is a JavaScript number.\<close>
definition Math_floor_half :: "nat \<Rightarrow> nat" where
  "Math_floor_half span_n = nat \<lfloor>real span_n / 2\<rfloor>"

definition Math_ceil_half :: "nat \<Rightarrow> nat" where
  "Math_ceil_half span_n = nat \<lceil>real span_n / 2\<rceil>"

section \<open>Device side: the shader language's float operations\<close>

text \<open>
  Shader values are floats that hold integers small enough to be exact; they are modelled
  as reals. \<open>mod(x, y)\<close> is \<open>x - y * floor(x / y)\<close>.
\<close>

definition mod_glsl :: "real \<Rightarrow> real \<Rightarrow> real" where
  "mod_glsl x y = x - y * of_int \<lfloor>x / y\<rfloor>"

definition floor_glsl :: "real \<Rightarrow> real" where
  "floor_glsl x = of_int \<lfloor>x\<rfloor>"

type_synonym vec2 = "real \<times> real"
type_synonym vec4 = "real \<times> real \<times> real \<times> real"

section \<open>Arithmetic gates: transition functions of the dense matrices\<close>

text \<open>
  Modelled from the spec: \<open>Matrix.generateTransition\<close> (Matrix.js is not among the
  sources). The transition matrix of a function \<open>f\<close> on \<open>n\<close> basis states has its
  single 1 of column \<open>e\<close> in row \<open>f e\<close>; it is kept as the table of \<open>f\<close>.
\<close>
definition generateTransition :: "int \<Rightarrow> (int \<Rightarrow> int) \<Rightarrow> int list" where
  "generateTransition n f = map (\<lambda>e. f (int e)) [0..<nat n]"

text \<open>
  The function that \<open>makeOffsetMatrix\<close> passes to \<open>generateTransition\<close>,
  \<open>e => (e + offset) & ((1<<qubitSpan)-1)\<close>; \<open>addition_fn\<close> and \<open>subtraction_fn\<close> below
  are those of \<open>ADDITION_MATRIX_MAKER\<close> and \<open>SUBTRACTION_MATRIX_MAKER\<close>.
\<close>
definition offset_fn :: "int \<Rightarrow> nat \<Rightarrow> int \<Rightarrow> int" where
  "offset_fn offset qubitSpan e = js_and (e + offset) (js_shl 1 qubitSpan - 1)"

definition makeOffsetMatrix :: "int \<Rightarrow> nat \<Rightarrow> int list" where
  "makeOffsetMatrix offset qubitSpan =
     generateTransition (js_shl 1 qubitSpan) (offset_fn offset qubitSpan)"

definition INCREMENT_MATRIX_MAKER :: "nat \<Rightarrow> int list" where
  "INCREMENT_MATRIX_MAKER span_n = makeOffsetMatrix 1 span_n"

definition DECREMENT_MATRIX_MAKER :: "nat \<Rightarrow> int list" where
  "DECREMENT_MATRIX_MAKER span_n = makeOffsetMatrix (- 1) span_n"

definition addition_fn :: "nat \<Rightarrow> int \<Rightarrow> int" where
  "addition_fn span_n e =
     (let sa = Math_floor_half span_n;
          sb = Math_ceil_half span_n;
          a = js_and e (js_shl 1 sa - 1);
          b = js_sar e sa;
          b = b + a;
          b = js_and b (js_shl 1 sb - 1)
      in a + js_shl b sa)"

definition ADDITION_MATRIX_MAKER :: "nat \<Rightarrow> int list" where
  "ADDITION_MATRIX_MAKER span_n = generateTransition (js_shl 1 span_n) (addition_fn span_n)"

definition subtraction_fn :: "nat \<Rightarrow> int \<Rightarrow> int" where
  "subtraction_fn span_n e =
     (let sa = Math_floor_half span_n;
          sb = Math_ceil_half span_n;
          a = js_and e (js_shl 1 sa - 1);
          b = js_sar e sa;
          b = b - a;
          b = js_and b (js_shl 1 sb - 1)
      in a + js_shl b sa)"

definition SUBTRACTION_MATRIX_MAKER :: "nat \<Rightarrow> int list" where
  "SUBTRACTION_MATRIX_MAKER span_n = generateTransition (js_shl 1 span_n) (subtraction_fn span_n)"

section \<open>Arithmetic gates: shader bodies\<close>

text \<open>
  Each body is a function of its own uniforms, of the \<open>span\<close> uniform, of \<open>out_id\<close>
  and of \<open>full_out_id\<close>, in this order.
\<close>

definition incrementShader :: "real \<Rightarrow> real \<Rightarrow> real \<Rightarrow> real \<Rightarrow> real" where
  "incrementShader amount span_n out_id full_out_id = mod_glsl (out_id - amount + span_n) span_n"

definition FLIP_SHADER :: "real \<Rightarrow> real \<Rightarrow> real \<Rightarrow> real \<Rightarrow> real \<Rightarrow> real" where
  "FLIP_SHADER srcOffset srcSpan span_n out_id full_out_id =
     (let d = mod_glsl (floor_glsl (full_out_id / srcOffset)) srcSpan
      in if out_id \<ge> d then out_id else mod_glsl (d - 1 - out_id) span_n)"

definition FLIP_SHADER_2 :: "real \<Rightarrow> real \<Rightarrow> real \<Rightarrow> real \<Rightarrow> real \<Rightarrow> real" where
  "FLIP_SHADER_2 srcOffset srcSpan span_n out_id full_out_id =
     (let d = mod_glsl (floor_glsl (full_out_id / srcOffset)) srcSpan
      in if out_id > d then out_id else mod_glsl (d - out_id) span_n)"

definition ADDITION_SHADER :: "real \<Rightarrow> real \<Rightarrow> real \<Rightarrow> real \<Rightarrow> real \<Rightarrow> real \<Rightarrow> real" where
  "ADDITION_SHADER srcOffset srcSpan factor span_n out_id full_out_id =
     (let d = mod_glsl (floor_glsl (full_out_id / srcOffset)) srcSpan;
          d = d * factor;
          d = mod_glsl d span_n
      in mod_glsl (out_id + span_n - d) span_n)"

text \<open>The six comparison expressions spliced into the comparison shader.\<close>
datatype compareCode = LessThan | GreaterThan | LessEq | GreaterEq | EqualTo | NotEqualTo

fun compare :: "compareCode \<Rightarrow> real \<Rightarrow> real \<Rightarrow> bool" where
  "compare LessThan lhs rhs = (lhs < rhs)"
| "compare GreaterThan lhs rhs = (lhs > rhs)"
| "compare LessEq lhs rhs = (lhs \<le> rhs)"
| "compare GreaterEq lhs rhs = (lhs \<ge> rhs)"
| "compare EqualTo lhs rhs = (lhs = rhs)"
| "compare NotEqualTo lhs rhs = (lhs \<noteq> rhs)"

definition comparisonShader ::
  "compareCode \<Rightarrow> real \<Rightarrow> real \<Rightarrow> real \<Rightarrow> real \<Rightarrow> real \<Rightarrow> real \<Rightarrow> real \<Rightarrow> real" where
  "comparisonShader compareCode lhsOffset lhsSpan rhsOffset rhsSpan span_n out_id full_out_id =
     (let lhs = mod_glsl (floor_glsl (full_out_id / lhsOffset)) lhsSpan;
          rhs = mod_glsl (floor_glsl (full_out_id / rhsOffset)) rhsSpan
      in mod_glsl (out_id + (if compare compareCode lhs rhs then 1 else 0)) 2)"

section \<open>Arithmetic gates: configured shaders\<close>

datatype shape = General | Permutation | Phase

record WglConfiguredShader =
  shader_shape :: shape
  shader_row :: nat
  shader_span :: nat
  shader_body :: "real \<Rightarrow> real \<Rightarrow> real"

record aux_range =
  offset :: nat
  length_bits :: nat

record CircuitEvalContext =
  row :: nat
  customContextFromGates :: "string \<rightharpoonup> aux_range"

text \<open>
  Modelled from the spec: \<open>ketArgs\<close> and \<open>ketShaderPermute\<close> (KetShaderUtil.js is not
  among the sources). Every synthesized program is bound with the target row offset and
  with the qubit span, which the \<open>span\<close> uniform holds as a power of 2; the body of a
  permutation-shaped program maps \<open>out_id\<close> and \<open>full_out_id\<close> to the \<open>out_id\<close> whose
  amplitude is read. The uniforms of a gate's own are bound by applying the body to them.
\<close>
record KetArgs =
  ket_row :: nat
  ket_span :: nat

definition ketArgs :: "CircuitEvalContext \<Rightarrow> nat \<Rightarrow> KetArgs" where
  "ketArgs ctx span_n = \<lparr>ket_row = row ctx, ket_span = span_n\<rparr>"

definition ketShaderPermute ::
  "(real \<Rightarrow> real \<Rightarrow> real \<Rightarrow> real) \<Rightarrow> KetArgs \<Rightarrow> WglConfiguredShader" where
  "ketShaderPermute body args =
     \<lparr>shader_shape = Permutation, shader_row = ket_row args, shader_span = ket_span args,
      shader_body = body (2 ^ ket_span args)\<rparr>"

text \<open>
  Modelled from the spec: how a permutation-shaped program reads the state.
  \<open>out_id\<close> is the \<open>span\<close>-wide slice of \<open>full_out_id\<close> at \<open>row\<close>, and the
  amplitude written at \<open>full_out_id\<close> is read at the index whose slice is the body's
  result, the bits outside the slice held fixed.
\<close>
definition out_id_of :: "WglConfiguredShader \<Rightarrow> int \<Rightarrow> int" where
  "out_id_of s full_out_id = (full_out_id div 2 ^ shader_row s) mod 2 ^ shader_span s"

definition source_id :: "WglConfiguredShader \<Rightarrow> int \<Rightarrow> real" where
  "source_id s full_out_id =
     (let out_id = of_int (out_id_of s full_out_id)
      in of_int full_out_id
         + (shader_body s out_id (of_int full_out_id) - out_id) * 2 ^ shader_row s)"

definition withRow :: "CircuitEvalContext \<Rightarrow> nat \<Rightarrow> CircuitEvalContext" where
  "withRow ctx r = ctx\<lparr>row := r\<rparr>"

datatype error = TypeError

text \<open>
  \<open>let {offset: o, length: l} = m.get(key)\<close>: a missing key gives \<open>undefined\<close>, and
  destructuring \<open>undefined\<close> throws.
\<close>
definition get_range :: "CircuitEvalContext \<Rightarrow> string \<Rightarrow> error + aux_range" where
  "get_range ctx key =
     (case customContextFromGates ctx key of None \<Rightarrow> Inl TypeError | Some r \<Rightarrow> Inr r)"

definition incrementShaderFunc :: "CircuitEvalContext \<Rightarrow> nat \<Rightarrow> real \<Rightarrow> WglConfiguredShader" where
  "incrementShaderFunc ctx qubitSpan incrementAmount =
     ketShaderPermute (incrementShader incrementAmount) (ketArgs ctx qubitSpan)"

definition flipShaderFunc :: "CircuitEvalContext \<Rightarrow> nat \<Rightarrow> nat \<Rightarrow> nat \<Rightarrow> WglConfiguredShader" where
  "flipShaderFunc ctx span_n srcOffset srcSpan =
     ketShaderPermute
       (FLIP_SHADER (of_int (js_shl 1 srcOffset)) (of_int (js_shl 1 srcSpan)))
       (ketArgs ctx span_n)"

definition flipShaderFunc2 :: "CircuitEvalContext \<Rightarrow> nat \<Rightarrow> nat \<Rightarrow> nat \<Rightarrow> WglConfiguredShader" where
  "flipShaderFunc2 ctx span_n srcOffset srcSpan =
     ketShaderPermute
       (FLIP_SHADER_2 (of_int (js_shl 1 srcOffset)) (of_int (js_shl 1 srcSpan)))
       (ketArgs ctx span_n)"

definition additionShaderFunc ::
  "CircuitEvalContext \<Rightarrow> nat \<Rightarrow> nat \<Rightarrow> nat \<Rightarrow> real \<Rightarrow> WglConfiguredShader" where
  "additionShaderFunc ctx span_n srcOffset srcSpan scaleFactor =
     ketShaderPermute
       (ADDITION_SHADER (of_int (js_shl 1 srcOffset)) (of_int (js_shl 1 srcSpan)) scaleFactor)
       (ketArgs ctx span_n)"

definition customComparisonShader ::
  "compareCode \<Rightarrow> CircuitEvalContext \<Rightarrow> error + WglConfiguredShader" where
  "customComparisonShader compareCode ctx =
     (case get_range ctx ''Input Range A'' of
        Inl e \<Rightarrow> Inl e
      | Inr lhs \<Rightarrow>
          (case get_range ctx ''Input Range B'' of
             Inl e \<Rightarrow> Inl e
           | Inr rhs \<Rightarrow>
               Inr (ketShaderPermute
                      (comparisonShader compareCode
                         (of_int (js_shl 1 (offset lhs))) (of_int (js_shl 1 (length_bits lhs)))
                         (of_int (js_shl 1 (offset rhs))) (of_int (js_shl 1 (length_bits rhs))))
                      (ketArgs ctx 1))))"

section \<open>Arithmetic gates: the gates\<close>

record Gate =
  knownMatrix :: "int list option"
  gate_height :: nat
  requiredContextKeys :: "string list"
  customShader :: "CircuitEvalContext \<Rightarrow> error + WglConfiguredShader"

text \<open>
  Modelled from the spec: \<open>Gate.generateFamily\<close> (Gate.js is not among the sources):
  the family has one gate for each span from the first bound to the second (the source
  caps spans at 16).
\<close>
definition generateFamily :: "nat \<Rightarrow> nat \<Rightarrow> (nat \<Rightarrow> Gate) \<Rightarrow> nat \<Rightarrow> Gate option" where
  "generateFamily minSpan maxSpan gateGenerator span_n =
     (if minSpan \<le> span_n \<and> span_n \<le> maxSpan then Some (gateGenerator span_n) else None)"

definition IncrementFamily :: "nat \<Rightarrow> Gate option" where
  "IncrementFamily = generateFamily 1 16 (\<lambda>span_n.
     \<lparr>knownMatrix = (if span_n \<ge> 4 then None else Some (INCREMENT_MATRIX_MAKER span_n)),
      gate_height = span_n,
      requiredContextKeys = [],
      customShader = (\<lambda>ctx. Inr (incrementShaderFunc ctx span_n 1))\<rparr>)"

definition DecrementFamily :: "nat \<Rightarrow> Gate option" where
  "DecrementFamily = generateFamily 1 16 (\<lambda>span_n.
     \<lparr>knownMatrix = (if span_n \<ge> 4 then None else Some (DECREMENT_MATRIX_MAKER span_n)),
      gate_height = span_n,
      requiredContextKeys = [],
      customShader = (\<lambda>ctx. Inr (incrementShaderFunc ctx span_n (- 1)))\<rparr>)"

definition AdditionFamily :: "nat \<Rightarrow> Gate option" where
  "AdditionFamily = generateFamily 2 16 (\<lambda>span_n.
     \<lparr>knownMatrix = (if span_n \<ge> 5 then None else Some (ADDITION_MATRIX_MAKER span_n)),
      gate_height = span_n,
      requiredContextKeys = [],
      customShader = (\<lambda>ctx. Inr (additionShaderFunc
         (withRow ctx (row ctx + Math_floor_half span_n))
         (Math_ceil_half span_n)
         (row ctx)
         (Math_floor_half span_n)
         1))\<rparr>)"

definition SubtractionFamily :: "nat \<Rightarrow> Gate option" where
  "SubtractionFamily = generateFamily 2 16 (\<lambda>span_n.
     \<lparr>knownMatrix = (if span_n \<ge> 5 then None else Some (SUBTRACTION_MATRIX_MAKER span_n)),
      gate_height = span_n,
      requiredContextKeys = [],
      customShader = (\<lambda>ctx. Inr (additionShaderFunc
         (withRow ctx (row ctx + Math_floor_half span_n))
         (Math_ceil_half span_n)
         (row ctx)
         (Math_floor_half span_n)
         (- 1)))\<rparr>)"

definition PlusAFamily :: "nat \<Rightarrow> Gate option" where
  "PlusAFamily = generateFamily 1 16 (\<lambda>span_n.
     \<lparr>knownMatrix = None,
      gate_height = span_n,
      requiredContextKeys = [''Input Range A''],
      customShader = (\<lambda>ctx.
         case get_range ctx ''Input Range A'' of
           Inl e \<Rightarrow> Inl e
         | Inr r \<Rightarrow> Inr (additionShaderFunc ctx span_n (offset r) (length_bits r) 1))\<rparr>)"

definition MinusAFamily :: "nat \<Rightarrow> Gate option" where
  "MinusAFamily = generateFamily 1 16 (\<lambda>span_n.
     \<lparr>knownMatrix = None,
      gate_height = span_n,
      requiredContextKeys = [''Input Range A''],
      customShader = (\<lambda>ctx.
         case get_range ctx ''Input Range A'' of
           Inl e \<Rightarrow> Inl e
         | Inr r \<Rightarrow> Inr (additionShaderFunc ctx span_n (offset r) (length_bits r) (- 1)))\<rparr>)"

definition FlipBelow :: "nat \<Rightarrow> Gate option" where
  "FlipBelow = generateFamily 1 16 (\<lambda>span_n.
     \<lparr>knownMatrix = None,
      gate_height = span_n,
      requiredContextKeys = [''Input Range A''],
      customShader = (\<lambda>ctx.
         case get_range ctx ''Input Range A'' of
           Inl e \<Rightarrow> Inl e
         | Inr r \<Rightarrow> Inr (flipShaderFunc ctx span_n (offset r) (length_bits r)))\<rparr>)"

definition FlipBelow2 :: "nat \<Rightarrow> Gate option" where
  "FlipBelow2 = generateFamily 1 16 (\<lambda>span_n.
     \<lparr>knownMatrix = None,
      gate_height = span_n,
      requiredContextKeys = [''Input Range A''],
      customShader = (\<lambda>ctx.
         case get_range ctx ''Input Range A'' of
           Inl e \<Rightarrow> Inl e
         | Inr r \<Rightarrow> Inr (flipShaderFunc2 ctx span_n (offset r) (length_bits r)))\<rparr>)"

definition comparisonGate :: "compareCode \<Rightarrow> Gate" where
  "comparisonGate compareCode =
     \<lparr>knownMatrix = None,
      gate_height = 1,
      requiredContextKeys = [''Input Range A'', ''Input Range B''],
      customShader = customComparisonShader compareCode\<rparr>"

definition ALessThanB :: Gate where "ALessThanB = comparisonGate LessThan"
definition AGreaterThanB :: Gate where "AGreaterThanB = comparisonGate GreaterThan"
definition ALessThanOrEqualToB :: Gate where "ALessThanOrEqualToB = comparisonGate LessEq"
definition AGreaterThanOrEqualToB :: Gate where "AGreaterThanOrEqualToB = comparisonGate GreaterEq"
definition AEqualToB :: Gate where "AEqualToB = comparisonGate EqualTo"
definition ANotEqualToB :: Gate where "ANotEqualToB = comparisonGate NotEqualTo"

text \<open>
  Modelled from the spec: the \<open>all\<close> of a gate family (Gate.js is not among the
  sources): its gates, one for each span up to 16.
\<close>
definition family_all :: "(nat \<Rightarrow> Gate option) \<Rightarrow> Gate list" where
  "family_all family = List.map_filter family [0..<17]"

definition ArithmeticGates_all :: "Gate list" where
  "ArithmeticGates_all =
     family_all IncrementFamily @
     family_all DecrementFamily @
     family_all AdditionFamily @
     family_all SubtractionFamily @
     family_all PlusAFamily @
     family_all MinusAFamily @
     family_all FlipBelow @
     family_all FlipBelow2 @
     [ALessThanB,
      AGreaterThanB,
      AEqualToB,
      ANotEqualToB,
      ALessThanOrEqualToB,
      AGreaterThanOrEqualToB]"

section \<open>Shader coders: the boolean coder\<close>

record WglTexture =
  width :: nat
  height :: nat
  texture2D :: "vec2 \<Rightarrow> vec4"

text \<open>
  Modelled from the spec: \<open>sizePower\<close> of a texture (WglTexture.js is not among the
  sources): the power of two that its pixel count is.
\<close>
fun floor_log2 :: "nat \<Rightarrow> nat" where
  "floor_log2 n = (if n < 2 then 0 else Suc (floor_log2 (n div 2)))"

definition sizePower :: "WglTexture \<Rightarrow> int" where
  "sizePower tex = int (floor_log2 (width tex * height tex))"

text \<open>The two functions that an input part adds to a program, with its uniforms bound.\<close>
record InputPart =
  read_name :: "real \<Rightarrow> real"
  len_name :: real

definition boolInputPartGetter :: "WglTexture \<Rightarrow> InputPart" where
  "boolInputPartGetter texture =
     (let size = (real (width texture), real (height texture))
      in \<lparr>read_name = (\<lambda>k.
             let uv = ((mod_glsl k (fst size) + (1 / 2)) / fst size,
                       (floor_glsl (k / fst size) + (1 / 2)) / snd size)
             in if fst (texture2D texture uv) = 1 then 1 else 0),
           len_name = fst size * snd size * 4\<rparr>)"

text \<open>The output part: \<open>len_output\<close> and the colour that \<open>main\<close> writes at a fragment.\<close>
record OutputPart =
  len_output :: real
  output_index :: "vec2 \<Rightarrow> real"
  main :: "(real \<Rightarrow> bool) \<Rightarrow> vec2 \<Rightarrow> vec4"

definition BOOL_OUTPUT_PART :: "WglTexture \<Rightarrow> OutputPart" where
  "BOOL_OUTPUT_PART texture =
     (let gen_output_size = (real (width texture), real (height texture));
          gen_secret_half = (1 / 2);
          index = (\<lambda>gl_FragCoord.
             let xy = (fst gl_FragCoord - gen_secret_half, snd gl_FragCoord - gen_secret_half)
             in snd xy * fst gen_output_size + fst xy)
      in \<lparr>len_output = fst gen_output_size * snd gen_output_size,
          output_index = index,
          main = (\<lambda>outputFor gl_FragCoord.
             ((if outputFor (index gl_FragCoord) then 1 else 0), 0, 0, 0))\<rparr>)"

record SingleTypeCoder =
  inputPartGetter :: "WglTexture \<Rightarrow> InputPart"
  outputPart :: "WglTexture \<Rightarrow> OutputPart"
  powerSizeOverhead :: int
  needRearrangingToBeInVec4Format :: bool

definition arrayPowerSizeOfTexture :: "SingleTypeCoder \<Rightarrow> WglTexture \<Rightarrow> int" where
  "arrayPowerSizeOfTexture coder tex = sizePower tex - powerSizeOverhead coder"

definition BOOL_TYPE_CODER :: SingleTypeCoder where
  "BOOL_TYPE_CODER =
     \<lparr>inputPartGetter = boolInputPartGetter,
      outputPart = BOOL_OUTPUT_PART,
      powerSizeOverhead = 0,
      needRearrangingToBeInVec4Format = False\<rparr>"

text \<open>
  Modelled from the spec: the global index of a basis state, \<open>full_id = (out_id << row) |
  (lower bits held fixed) | (upper bits held fixed)\<close>, for a gate of \<open>n\<close> qubits at
  row \<open>r\<close>, with \<open>lo\<close> the bits below the gate and \<open>hi\<close> the bits above it.
\<close>
definition full_id :: "int \<Rightarrow> nat \<Rightarrow> nat \<Rightarrow> int \<Rightarrow> int \<Rightarrow> int" where
  "full_id lo r n hi x = lo + x * 2 ^ r + hi * 2 ^ (r + n)"

text \<open>
  The two conditional flips in the spec's words: the identity at or above the threshold
  \<open>d\<close> (above it, for the second), a reflection around it, modulo \<open>2^span\<close>, below.
\<close>
definition flip_below :: "int \<Rightarrow> int \<Rightarrow> int \<Rightarrow> int" where
  "flip_below d S x = (if x \<ge> d then x else (d - 1 - x) mod S)"

definition flip_at_or_below :: "int \<Rightarrow> int \<Rightarrow> int \<Rightarrow> int" where
  "flip_at_or_below d S x = (if x > d then x else (d - x) mod S)"

text \<open>
  Agreement of a dense transition matrix, kept as the table \<open>m\<close> of its forward map,
  with a permutation-shaped program \<open>s\<close>, for a gate of \<open>n\<close> qubits at row \<open>r\<close>:
  the matrix has \<open>2^n\<close> columns, and the amplitude that the program writes at the
  basis state \<open>m ! e\<close> is the one it reads at the basis state \<open>e\<close>.
\<close>
definition matrix_agrees ::
  "int list \<Rightarrow> WglConfiguredShader \<Rightarrow> int \<Rightarrow> nat \<Rightarrow> nat \<Rightarrow> int \<Rightarrow> bool" where
  "matrix_agrees m s lo r n hi =
     (length m = 2 ^ n
      \<and> (\<forall>e \<in> {0..<2 ^ n}. source_id s (full_id lo r n hi (m ! e))
                              = of_int (full_id lo r n hi (int e))))"

text \<open>Concrete contexts and textures for the instances below.\<close>
definition ctx0 :: CircuitEvalContext where
  "ctx0 = \<lparr>row = 4, customContextFromGates =
      [''Input Range A'' \<mapsto> \<lparr>offset = 1, length_bits = 3\<rparr>,
       ''Input Range B'' \<mapsto> \<lparr>offset = 0, length_bits = 1\<rparr>]\<rparr>"

definition ctx1 :: CircuitEvalContext where
  "ctx1 = \<lparr>row = 5, customContextFromGates =
      [''Input Range A'' \<mapsto> \<lparr>offset = 0, length_bits = 2\<rparr>,
       ''Input Range B'' \<mapsto> \<lparr>offset = 2, length_bits = 3\<rparr>]\<rparr>"

definition ctx_only_A :: CircuitEvalContext where
  "ctx_only_A = \<lparr>row = 5, customContextFromGates =
      [''Input Range A'' \<mapsto> \<lparr>offset = 0, length_bits = 2\<rparr>]\<rparr>"

definition tex_4x2 :: WglTexture where
  "tex_4x2 = \<lparr>width = 4, height = 2,
      texture2D = (\<lambda>uv. if uv = (3 / 8, 3 / 4) then (1, 0, 0, 0) else (0, 0, 0, 0))\<rparr>"

section \<open>Float and 32-bit arithmetic on integers\<close>

lemma mod_glsl_of_int: "mod_glsl (of_int a) (of_int b) = of_int (a mod b)"
  unfolding mod_glsl_def
  by (simp add: floor_divide_of_int_eq minus_mult_div_eq_mod[symmetric] del: minus_mult_div_eq_mod)

lemma floor_glsl_div: "floor_glsl (of_int a / of_int b) = of_int (a div b)"
  unfolding floor_glsl_def by (simp add: floor_divide_of_int_eq)

lemma toInt32_id: "- (2 ^ 31) \<le> x \<Longrightarrow> x < 2 ^ 31 \<Longrightarrow> toInt32 x = x"
  unfolding toInt32_def by (rule signed_take_bit_int_eq_self)

lemma js_shl_1:
  assumes "n \<le> 30"
  shows "js_shl 1 n = 2 ^ n"
proof -
  have "(2::int) ^ n \<le> 2 ^ 30"
    using assms by (intro power_increasing) auto
  then have b: "(2::int) ^ n < 2 ^ 31" by simp
  have "- (2 ^ 31) \<le> (0::int)" by simp
  also have "(0::int) \<le> 2 ^ n" by simp
  finally have a: "- (2 ^ 31) \<le> (2::int) ^ n" .
  have m: "n mod 32 = n" using assms by simp
  have one: "toInt32 1 = 1" by (rule toInt32_id) simp_all
  show ?thesis
    unfolding js_shl_def m one using toInt32_id[OF a b] by (simp add: push_bit_eq_mult)
qed

lemma extract_eq:
  assumes "off \<le> 30" "len \<le> 30"
  shows "mod_glsl (floor_glsl (of_int g / of_int (js_shl 1 off))) (of_int (js_shl 1 len))
         = of_int ((g div 2 ^ off) mod 2 ^ len)"
  unfolding js_shl_1[OF assms(1)] js_shl_1[OF assms(2)] floor_glsl_div mod_glsl_of_int ..

lemma Math_floor_half_eq: "Math_floor_half n = n div 2"
proof -
  have "\<lfloor>real n / 2\<rfloor> = int (n div 2)"
    using floor_divide_of_nat_eq[of n 2] by simp
  then show ?thesis by (simp add: Math_floor_half_def)
qed

lemma Math_ceil_half_eq: "Math_ceil_half n = (n + 1) div 2"
proof -
  have "\<lceil>real n / 2\<rceil> = - (- int n div 2)"
    using ceiling_divide_eq_div[of "int n" 2, where ?'a = real] by simp
  also have "\<dots> = int ((n + 1) div 2)" by linarith
  finally show ?thesis by (simp add: Math_ceil_half_def)
qed

lemma pow2_lt_31: "n \<le> 30 \<Longrightarrow> (2::int) ^ n < 2 ^ 31"
proof -
  assume "n \<le> 30"
  then have "(2::int) ^ n \<le> 2 ^ 30" by (intro power_increasing) auto
  then show ?thesis by simp
qed

lemma js_and_mask:
  assumes "- (2 ^ 31) \<le> x" "x < 2 ^ 31" "n \<le> 30"
  shows "js_and x (js_shl 1 n - 1) = x mod 2 ^ n"
proof -
  have "- (2 ^ 31) \<le> (0::int)" by simp
  also have "(0::int) \<le> 2 ^ n - 1" by simp
  finally have lo: "- (2 ^ 31) \<le> (2::int) ^ n - 1" .
  have hi: "(2::int) ^ n - 1 < 2 ^ 31" using pow2_lt_31[OF assms(3)] by simp
  have m: "toInt32 (2 ^ n - 1) = 2 ^ n - 1"
    by (rule toInt32_id[OF lo hi])
  have "x AND (2 ^ n - 1) = x mod 2 ^ n"
    by (simp flip: mask_eq_exp_minus_1 take_bit_eq_mask add: take_bit_eq_mod)
  then show ?thesis
    by (simp add: js_and_def js_shl_1[OF assms(3)] m toInt32_id[OF assms(1,2)])
qed

lemma js_sar_eq:
  assumes "- (2 ^ 31) \<le> x" "x < 2 ^ 31" "n \<le> 31"
  shows "js_sar x n = x div 2 ^ n"
  using assms(3) by (simp add: js_sar_def toInt32_id[OF assms(1,2)] drop_bit_eq_div)

lemma js_shl_eq:
  assumes "0 \<le> x" "x * 2 ^ n < 2 ^ 31" "n \<le> 31"
  shows "js_shl x n = x * 2 ^ n"
proof -
  have "x * 1 \<le> x * 2 ^ n" using assms(1) by (intro mult_left_mono) auto
  then have x: "x < 2 ^ 31" using assms(2) by simp
  have 1: "toInt32 x = x" using assms(1) x by (intro toInt32_id) auto
  have "0 \<le> x * 2 ^ n" using assms(1) by simp
  then have 2: "toInt32 (x * 2 ^ n) = x * 2 ^ n" using assms(2) by (intro toInt32_id) auto
  show ?thesis using assms(3) by (simp add: js_shl_def 1 push_bit_eq_mult 2)
qed

lemma int_div_lt:
  fixes e P Q :: int
  assumes "0 < P" "e < Q * P"
  shows "e div P < Q"
proof -
  have "e div P * P + e mod P = e" by simp
  moreover have "0 \<le> e mod P" using assms(1) by simp
  ultimately have "e div P * P \<le> e" by linarith
  then have "e div P * P < Q * P" using assms(2) by linarith
  then show ?thesis using assms(1) by (simp add: mult_less_cancel_right)
qed

lemma slice_embed:
  fixes lo x hi :: int
  assumes "0 \<le> lo" "lo < 2 ^ r" "0 \<le> x" "x < 2 ^ n"
  shows "((lo + x * 2 ^ r + hi * 2 ^ (r + n)) div 2 ^ r) mod 2 ^ n = x"
proof -
  have eq: "lo + x * 2 ^ r + hi * 2 ^ (r + n) = lo + (x + hi * 2 ^ n) * 2 ^ r"
    by (simp add: power_add algebra_simps)
  have "(lo + (x + hi * 2 ^ n) * 2 ^ r) div 2 ^ r = x + hi * 2 ^ n"
    using assms(1,2) by (simp add: div_pos_pos_trivial)
  then show ?thesis unfolding eq using assms(3,4) by (simp add: mod_pos_pos_trivial)
qed

lemma pow2_le_30: "n \<le> 30 \<Longrightarrow> (2::int) ^ n \<le> 2 ^ 30"
  by (intro power_increasing) auto

lemma addition_fn_eq:
  assumes "span_n \<le> 30" "0 \<le> e" "e < 2 ^ span_n"
  shows "addition_fn span_n e =
           e mod 2 ^ (span_n div 2)
           + ((e div 2 ^ (span_n div 2) + e mod 2 ^ (span_n div 2)) mod 2 ^ ((span_n + 1) div 2))
             * 2 ^ (span_n div 2)"
    and "subtraction_fn span_n e =
           e mod 2 ^ (span_n div 2)
           + ((e div 2 ^ (span_n div 2) - e mod 2 ^ (span_n div 2)) mod 2 ^ ((span_n + 1) div 2))
             * 2 ^ (span_n div 2)"
proof -
  define sa where "sa = span_n div 2"
  define sb where "sb = (span_n + 1) div 2"
  define a where "a = e mod 2 ^ sa"
  define b where "b = e div 2 ^ sa"
  have sab: "sb + sa = span_n" unfolding sa_def sb_def by linarith
  have sa: "sa \<le> 30" and sb: "sb \<le> 30"
    using assms(1) unfolding sa_def sb_def by auto
  have p31: "(2::int) ^ span_n < 2 ^ 31" by (rule pow2_lt_31[OF assms(1)])
  have e31: "e < 2 ^ 31" using assms(3) p31 by simp
  have elo: "- (2 ^ 31) \<le> e" using assms(2) by simp
  have a: "js_and e (js_shl 1 sa - 1) = a" unfolding a_def by (rule js_and_mask[OF elo e31 sa])
  have b: "js_sar e sa = b" unfolding b_def using sa by (intro js_sar_eq[OF elo e31]) simp
  have a0: "0 \<le> a" and a1: "a < 2 ^ sa" unfolding a_def by simp_all
  have b0: "0 \<le> b" unfolding b_def using assms(2) by (simp add: pos_imp_zdiv_nonneg_iff)
  have pp: "(2::int) ^ sb * 2 ^ sa = 2 ^ span_n" using sab by (simp add: power_add[symmetric])
  have b1: "b < 2 ^ sb" unfolding b_def using assms(3) pp by (intro int_div_lt) simp_all
  have sum: "- (2 ^ 31) \<le> b + a" "b + a < 2 ^ 31"
    using a0 a1 b0 b1 pow2_le_30[OF sa] pow2_le_30[OF sb] by simp_all
  have dif: "- (2 ^ 31) \<le> b - a" "b - a < 2 ^ 31"
    using a0 a1 b0 b1 pow2_le_30[OF sa] pow2_le_30[OF sb] by simp_all
  have shl: "js_shl (k mod 2 ^ sb) sa = (k mod 2 ^ sb) * 2 ^ sa" for k :: int
  proof (rule js_shl_eq)
    show "0 \<le> k mod 2 ^ sb" by simp
    have "k mod 2 ^ sb < 2 ^ sb" by simp
    then have "(k mod 2 ^ sb) * 2 ^ sa < 2 ^ sb * 2 ^ sa" by (simp add: mult_less_cancel_right)
    then show "k mod 2 ^ sb * 2 ^ sa < 2 ^ 31" using pp p31 by simp
    show "sa \<le> 31" using sa by simp
  qed
  show "addition_fn span_n e =
           e mod 2 ^ (span_n div 2)
           + ((e div 2 ^ (span_n div 2) + e mod 2 ^ (span_n div 2)) mod 2 ^ ((span_n + 1) div 2))
             * 2 ^ (span_n div 2)"
    unfolding addition_fn_def Math_floor_half_eq Math_ceil_half_eq
      sa_def[symmetric] sb_def[symmetric] Let_def a b js_and_mask[OF sum sb] shl
    unfolding a_def b_def ..
  show "subtraction_fn span_n e =
           e mod 2 ^ (span_n div 2)
           + ((e div 2 ^ (span_n div 2) - e mod 2 ^ (span_n div 2)) mod 2 ^ ((span_n + 1) div 2))
             * 2 ^ (span_n div 2)" 
    unfolding subtraction_fn_def Math_floor_half_eq Math_ceil_half_eq
      sa_def[symmetric] sb_def[symmetric] Let_def a b js_and_mask[OF dif sb] shl
    unfolding a_def b_def ..
qed

lemma mod_shift_cancel:
  fixes x d S :: int
  shows "((x + d) mod S + S - d mod S) mod S = x mod S"
proof -
  have "((x + d) mod S + S - d mod S) mod S = ((x + d) mod S + (S - d)) mod S"
    by (simp add: mod_diff_right_eq add_diff_eq)
  also have "\<dots> = (x + d + (S - d)) mod S"
    by (simp only: mod_add_left_eq)
  also have "\<dots> = x mod S" by simp
  finally show ?thesis .
qed

lemma mod_shift_cancel':
  fixes x d S :: int
  shows "((x + S - d mod S) mod S + S - (- d) mod S) mod S = x mod S"
proof -
  have "(x + S - d mod S) mod S = (x - d) mod S"
  proof -
    have "(x + S - d mod S) mod S = (x + S - d) mod S" by (simp add: mod_diff_right_eq)
    also have "\<dots> = (x - d + S) mod S" by (simp add: algebra_simps)
    also have "\<dots> = (x - d) mod S" by simp
    finally show ?thesis .
  qed
  then show ?thesis using mod_shift_cancel[of x "- d" S] by simp
qed

section \<open>Shader bodies on integers\<close>


lemma incrementShader_int:
  "incrementShader (of_int am) (of_int S) (of_int out) f = of_int ((out - am + S) mod S)"
  by (simp add: incrementShader_def mod_glsl_of_int flip: of_int_add of_int_diff)

lemma ADDITION_SHADER_int:
  "ADDITION_SHADER (of_int so) (of_int ss) (of_int fac) (of_int S) (of_int out) (of_int full)
   = of_int ((out + S - (((full div so) mod ss) * fac) mod S) mod S)"
  by (simp add: ADDITION_SHADER_def Let_def floor_glsl_div mod_glsl_of_int
        flip: of_int_add of_int_diff of_int_mult)

lemma FLIP_SHADER_int:
  "FLIP_SHADER (of_int so) (of_int ss) (of_int S) (of_int out) (of_int full)
   = of_int (let d = (full div so) mod ss in if out \<ge> d then out else (d - 1 - out) mod S)"
proof -
  have "mod_glsl (of_int d - 1 - of_int out) (of_int S) = of_int ((d - 1 - out) mod S)" for d
    using mod_glsl_of_int[of "d - 1 - out" S] by simp
  then show ?thesis
    by (simp add: FLIP_SHADER_def Let_def floor_glsl_div mod_glsl_of_int)
qed

lemma FLIP_SHADER_2_int:
  "FLIP_SHADER_2 (of_int so) (of_int ss) (of_int S) (of_int out) (of_int full)
   = of_int (let d = (full div so) mod ss in if out > d then out else (d - out) mod S)"
  by (simp add: FLIP_SHADER_2_def Let_def floor_glsl_div mod_glsl_of_int
        flip: of_int_add of_int_diff of_int_mult)

lemma comparisonShader_int:
  "comparisonShader c (of_int lo) (of_int ls) (of_int ro) (of_int rs) S (of_int out) (of_int full)
   = of_int ((out + (if compare c (of_int ((full div lo) mod ls)) (of_int ((full div ro) mod rs))
                     then 1 else 0)) mod 2)"
  using mod_glsl_of_int[of "out + 1" 2] mod_glsl_of_int[of out 2]
  by (simp add: comparisonShader_def Let_def floor_glsl_div mod_glsl_of_int)

lemma source_id_permute:
  assumes "0 \<le> lo" "lo < 2 ^ r" "0 \<le> x" "x < 2 ^ n"
    and "body (2 ^ n) (of_int x) (of_int (full_id lo r n hi x)) = of_int y"
  shows "source_id (ketShaderPermute body \<lparr>ket_row = r, ket_span = n\<rparr>) (full_id lo r n hi x) = of_int (full_id lo r n hi y)"
proof -
  have o: "out_id_of (ketShaderPermute body \<lparr>ket_row = r, ket_span = n\<rparr>) (full_id lo r n hi x) = x"
    using slice_embed[OF assms(1-4)] by (simp add: out_id_of_def ketShaderPermute_def ketArgs_def full_id_def)
  have b: "shader_body (ketShaderPermute body \<lparr>ket_row = r, ket_span = n\<rparr>) = body (2 ^ n)"
    and r: "shader_row (ketShaderPermute body \<lparr>ket_row = r, ket_span = n\<rparr>) = r"
    by (simp_all add: ketShaderPermute_def ketArgs_def)
  show ?thesis
    unfolding source_id_def o Let_def b r assms(5)
    by (simp add: full_id_def algebra_simps)
qed

section \<open>Extraction of an auxiliary range\<close>

text \<open>
  C1. For every non-negative integer \<open>full_out_id\<close> and every auxiliary range of a
  circuit, whose offset \<open>o\<close> and length \<open>L\<close> are at most 16 (the families are capped at
  16 qubits), the value that the synthesized shaders extract for the range, with the
  uniforms as the host binds them (\<open>1 << o\<close> and \<open>1 << L\<close>), is
  \<open>mod(floor(full_out_id / 2^o), 2^L)\<close>; the bodies of the flip, addition and comparison
  shaders are the bodies computed from that value.
\<close>
theorem aux_range_extraction:
  assumes "0 \<le> g" and "off \<le> 16" and "len \<le> 16"
    and "customContextFromGates ctx ''Input Range A'' = Some \<lparr>offset = lo, length_bits = ll\<rparr>"
    and "customContextFromGates ctx ''Input Range B'' = Some \<lparr>offset = ro, length_bits = rl\<rparr>"
    and "lo \<le> 16" and "ll \<le> 16" and "ro \<le> 16" and "rl \<le> 16"
  shows "mod_glsl (floor_glsl (of_int g / of_int (js_shl 1 off))) (of_int (js_shl 1 len))
           = of_int ((g div 2 ^ off) mod 2 ^ len)
       \<and> shader_body (flipShaderFunc ctx n off len) out_id (of_int g) =
           (let d = of_int ((g div 2 ^ off) mod 2 ^ len)
            in if out_id \<ge> d then out_id else mod_glsl (d - 1 - out_id) (2 ^ n))
       \<and> shader_body (flipShaderFunc2 ctx n off len) out_id (of_int g) =
           (let d = of_int ((g div 2 ^ off) mod 2 ^ len)
            in if out_id > d then out_id else mod_glsl (d - out_id) (2 ^ n))
       \<and> shader_body (additionShaderFunc ctx n off len factor) out_id (of_int g) =
           (let d = of_int ((g div 2 ^ off) mod 2 ^ len)
            in mod_glsl (out_id + 2 ^ n - mod_glsl (d * factor) (2 ^ n)) (2 ^ n))
       \<and> (\<exists>s. customComparisonShader c ctx = Inr s
              \<and> shader_body s out_id (of_int g) =
                (let lhs = of_int ((g div 2 ^ lo) mod 2 ^ ll);
                     rhs = of_int ((g div 2 ^ ro) mod 2 ^ rl)
                 in mod_glsl (out_id + (if compare c lhs rhs then 1 else 0)) 2))"
proof -
  have b: "off \<le> 30" "len \<le> 30" "lo \<le> 30" "ll \<le> 30" "ro \<le> 30" "rl \<le> 30"
    using assms(2,3,6-9) by simp_all
  note e = extract_eq[OF b(1,2), of g]
  have 1: "shader_body (flipShaderFunc ctx n off len) out_id (of_int g) =
           (let d = of_int ((g div 2 ^ off) mod 2 ^ len)
            in if out_id \<ge> d then out_id else mod_glsl (d - 1 - out_id) (2 ^ n))"
    by (simp add: flipShaderFunc_def ketShaderPermute_def ketArgs_def FLIP_SHADER_def e)
  have 2: "shader_body (flipShaderFunc2 ctx n off len) out_id (of_int g) =
           (let d = of_int ((g div 2 ^ off) mod 2 ^ len)
            in if out_id > d then out_id else mod_glsl (d - out_id) (2 ^ n))"
    by (simp add: flipShaderFunc2_def ketShaderPermute_def ketArgs_def FLIP_SHADER_2_def e)
  have 3: "shader_body (additionShaderFunc ctx n off len factor) out_id (of_int g) =
           (let d = of_int ((g div 2 ^ off) mod 2 ^ len)
            in mod_glsl (out_id + 2 ^ n - mod_glsl (d * factor) (2 ^ n)) (2 ^ n))"
    by (simp add: additionShaderFunc_def ketShaderPermute_def ketArgs_def ADDITION_SHADER_def e)
  have 4: "\<exists>s. customComparisonShader c ctx = Inr s
              \<and> shader_body s out_id (of_int g) =
                (let lhs = of_int ((g div 2 ^ lo) mod 2 ^ ll);
                     rhs = of_int ((g div 2 ^ ro) mod 2 ^ rl)
                 in mod_glsl (out_id + (if compare c lhs rhs then 1 else 0)) 2)"
    by (simp add: customComparisonShader_def get_range_def assms(4,5) ketShaderPermute_def
          ketArgs_def comparisonShader_def
          extract_eq[OF b(3,4), of g] extract_eq[OF b(5,6), of g])
  from e 1 2 3 4 show ?thesis by blast
qed

text \<open>
  The instance of the spec: at \<open>full_out_id = 22\<close>, offset 1 and length 3 the extracted
  value is \<open>mod(floor(22 / 2), 8) = 3\<close>. The gate sits on bit 4, range A on bits 1 to 3,
  range B on bit 0.
\<close>
theorem aux_range_extraction_witness:
  "(0::int) \<le> 22 \<and> (1::nat) \<le> 16 \<and> (3::nat) \<le> 16 \<and> (0::nat) \<le> 16
   \<and> customContextFromGates ctx0 ''Input Range A'' = Some \<lparr>offset = 1, length_bits = 3\<rparr>
   \<and> customContextFromGates ctx0 ''Input Range B'' = Some \<lparr>offset = 0, length_bits = 1\<rparr>
   \<and> mod_glsl (floor_glsl (22 / of_int (js_shl 1 1))) (of_int (js_shl 1 3)) = 3
   \<and> (22 div 2 ^ 1) mod 2 ^ 3 = (3::int)
   \<and> shader_body (flipShaderFunc ctx0 1 1 3) 1 22 = 1
   \<and> shader_body (flipShaderFunc2 ctx0 1 1 3) 1 22 = 0
   \<and> shader_body (additionShaderFunc ctx0 1 1 3 1) 1 22 = 0
   \<and> (\<exists>s. customComparisonShader LessThan ctx0 = Inr s \<and> shader_body s 1 22 = 1)"
  using aux_range_extraction [of 22 1 3 ctx0 1 3 0 1 1 1 1 LessThan]
  by (simp add: ctx0_def mod_glsl_def)

section \<open>Addition and subtraction of one half of a register into the other\<close>

lemma addition_body:
  fixes a b g so ss :: int
  assumes "0 \<le> b" "b < 2 ^ sb" "(g div so) mod ss = a"
  shows "ADDITION_SHADER (of_int so) (of_int ss) 1 (2 ^ sb)
           (of_int ((b + a) mod 2 ^ sb)) (of_int g) = of_int b"
    and "ADDITION_SHADER (of_int so) (of_int ss) (- 1) (2 ^ sb)
           (of_int ((b - a) mod 2 ^ sb)) (of_int g) = of_int b"
proof -
  have bm: "b mod 2 ^ sb = b" using assms(1,2) by (simp add: mod_pos_pos_trivial)
  have i1: "((b + a) mod 2 ^ sb + 2 ^ sb - (a * 1) mod 2 ^ sb) mod 2 ^ sb = b"
    using mod_shift_cancel[of b a "2 ^ sb"] bm by simp
  have i2: "((b - a) mod 2 ^ sb + 2 ^ sb - (a * (- 1)) mod 2 ^ sb) mod 2 ^ sb = b"
    using mod_shift_cancel[of b "- a" "2 ^ sb"] bm by simp
  show "ADDITION_SHADER (of_int so) (of_int ss) 1 (2 ^ sb)
           (of_int ((b + a) mod 2 ^ sb)) (of_int g) = of_int b"
    using ADDITION_SHADER_int[of so ss 1 "2 ^ sb" "(b + a) mod 2 ^ sb" g]
    unfolding assms(3) i1 by simp
  show "ADDITION_SHADER (of_int so) (of_int ss) (- 1) (2 ^ sb)
           (of_int ((b - a) mod 2 ^ sb)) (of_int g) = of_int b"
    using ADDITION_SHADER_int[of so ss "- 1" "2 ^ sb" "(b - a) mod 2 ^ sb" g]
    unfolding assms(3) i2 by simp
qed

lemma half_bounds:
  fixes e :: int
  assumes "0 \<le> e" "e < 2 ^ n"
  shows "0 \<le> e div 2 ^ (n div 2)" and "e div 2 ^ (n div 2) < 2 ^ ((n + 1) div 2)"
proof -
  show "0 \<le> e div 2 ^ (n div 2)" using assms(1) by (simp add: pos_imp_zdiv_nonneg_iff)
  have "(n + 1) div 2 + n div 2 = n" by linarith
  then have "(2::int) ^ ((n + 1) div 2) * 2 ^ (n div 2) = 2 ^ n"
    by (simp add: power_add[symmetric])
  then show "e div 2 ^ (n div 2) < 2 ^ ((n + 1) div 2)"
    using assms(2) by (intro int_div_lt) simp_all
qed

lemma AdditionFamily_shader:
  assumes "2 \<le> n" "n \<le> 16"
  shows "\<exists>gate. AdditionFamily n = Some gate
           \<and> knownMatrix gate = (if n \<ge> 5 then None else Some (ADDITION_MATRIX_MAKER n))
           \<and> customShader gate ctx =
               Inr (ketShaderPermute
                      (ADDITION_SHADER (of_int (js_shl 1 (row ctx))) (of_int (js_shl 1 (n div 2))) 1)
                      \<lparr>ket_row = row ctx + n div 2, ket_span = (n + 1) div 2\<rparr>)"
  using assms
  by (simp add: AdditionFamily_def generateFamily_def additionShaderFunc_def withRow_def
        ketArgs_def Math_floor_half_eq Math_ceil_half_eq)

lemma SubtractionFamily_shader:
  assumes "2 \<le> n" "n \<le> 16"
  shows "\<exists>gate. SubtractionFamily n = Some gate
           \<and> knownMatrix gate = (if n \<ge> 5 then None else Some (SUBTRACTION_MATRIX_MAKER n))
           \<and> customShader gate ctx =
               Inr (ketShaderPermute
                      (ADDITION_SHADER (of_int (js_shl 1 (row ctx))) (of_int (js_shl 1 (n div 2))) (- 1))
                      \<lparr>ket_row = row ctx + n div 2, ket_span = (n + 1) div 2\<rparr>)"
  using assms
  by (simp add: SubtractionFamily_def generateFamily_def additionShaderFunc_def withRow_def
        ketArgs_def Math_floor_half_eq Math_ceil_half_eq)

text \<open>
  C2. For every span from 2 to 16, with \<open>sa = floor(span/2)\<close> and
  \<open>sb = ceil(span/2)\<close>, the transition function of the addition gate maps every
  basis state \<open>e\<close> below \<open>2^span\<close>, with addend \<open>a = e mod 2^sa\<close> and accumulator
  \<open>b = floor(e / 2^sa)\<close>, to \<open>a + (((b + a) mod 2^sb) << sa)\<close>, and that of the
  subtraction gate to \<open>a + (((b - a) mod 2^sb) << sa)\<close>; the addend half is unchanged.
  The shader of each gate acts on the accumulator half, at row \<open>row + sa\<close> with span
  \<open>sb\<close>, and at the new accumulator value its body reads the old one, \<open>b\<close>, whenever
  \<open>full_out_id\<close> holds the addend \<open>a\<close> in the range that the gate passes to the shader
  (offset \<open>row\<close>, length \<open>sa\<close>).
\<close>
theorem addition_subtraction_maps:
  fixes e a b g :: int
  assumes "2 \<le> span_n" and "span_n \<le> 16" and "0 \<le> e" and "e < 2 ^ span_n"
    and "sa = span_n div 2" and "sb = (span_n + 1) div 2"
    and "a = e mod 2 ^ sa" and "b = e div 2 ^ sa"
    and "(g div js_shl 1 (row ctx)) mod js_shl 1 sa = a"
  shows "addition_fn span_n e = a + ((b + a) mod 2 ^ sb) * 2 ^ sa
       \<and> subtraction_fn span_n e = a + ((b - a) mod 2 ^ sb) * 2 ^ sa
       \<and> addition_fn span_n e mod 2 ^ sa = a
       \<and> subtraction_fn span_n e mod 2 ^ sa = a
       \<and> (\<exists>gate s. AdditionFamily span_n = Some gate \<and> customShader gate ctx = Inr s
             \<and> shader_row s = row ctx + sa \<and> shader_span s = sb
             \<and> shader_body s (of_int ((b + a) mod 2 ^ sb)) (of_int g) = of_int b)
       \<and> (\<exists>gate s. SubtractionFamily span_n = Some gate \<and> customShader gate ctx = Inr s
             \<and> shader_row s = row ctx + sa \<and> shader_span s = sb
             \<and> shader_body s (of_int ((b - a) mod 2 ^ sb)) (of_int g) = of_int b)"
proof -
  have n30: "span_n \<le> 30" and sa30: "sa \<le> 30" using assms(2,5) by simp_all
  have 1: "addition_fn span_n e = a + ((b + a) mod 2 ^ sb) * 2 ^ sa"
    unfolding addition_fn_eq(1)[OF n30 assms(3,4)] assms(5-8) ..
  have 2: "subtraction_fn span_n e = a + ((b - a) mod 2 ^ sb) * 2 ^ sa"
    unfolding addition_fn_eq(2)[OF n30 assms(3,4)] assms(5-8) ..
  have am: "a mod 2 ^ sa = a" unfolding assms(7) by simp
  have 3: "addition_fn span_n e mod 2 ^ sa = a" unfolding 1 using am by simp
  have 4: "subtraction_fn span_n e mod 2 ^ sa = a" unfolding 2 using am by simp
  have b0: "0 \<le> b" and b1: "b < 2 ^ sb"
    unfolding assms(5,6,8) by (rule half_bounds[OF assms(3,4)])+
  note bodies = addition_body[OF b0 b1 assms(9)]
  have 5: "\<exists>gate s. AdditionFamily span_n = Some gate \<and> customShader gate ctx = Inr s
             \<and> shader_row s = row ctx + sa \<and> shader_span s = sb
             \<and> shader_body s (of_int ((b + a) mod 2 ^ sb)) (of_int g) = of_int b"
    using AdditionFamily_shader[OF assms(1,2), of ctx] bodies(1)
    by (auto simp: ketShaderPermute_def ketArgs_def assms(5,6))
  have 6: "\<exists>gate s. SubtractionFamily span_n = Some gate \<and> customShader gate ctx = Inr s
             \<and> shader_row s = row ctx + sa \<and> shader_span s = sb
             \<and> shader_body s (of_int ((b - a) mod 2 ^ sb)) (of_int g) = of_int b"
    using SubtractionFamily_shader[OF assms(1,2), of ctx] bodies(2)
    by (auto simp: ketShaderPermute_def ketArgs_def assms(5,6))
  from 1 2 3 4 5 6 show ?thesis by blast
qed

text \<open>
  Span 4 and \<open>e = 13\<close>, that is \<open>a = 1\<close> and \<open>b = 3\<close>: the sum is \<open>(1, 0)\<close>, the
  state 1, and the difference is \<open>(1, 2)\<close>, the state 9.
\<close>
theorem addition_subtraction_maps_witness:
  "(2::nat) \<le> 4 \<and> (4::nat) \<le> 16 \<and> (0::int) \<le> 13 \<and> (13::int) < 2 ^ 4
   \<and> (2::nat) = 4 div 2 \<and> (2::nat) = (4 + 1) div 2
   \<and> (1::int) = 13 mod 2 ^ 2 \<and> (3::int) = 13 div 2 ^ 2
   \<and> ((16::int) div js_shl 1 (row ctx0)) mod js_shl 1 2 = 1
   \<and> addition_fn 4 13 = 1 \<and> subtraction_fn 4 13 = 9
   \<and> (\<exists>gate s. AdditionFamily 4 = Some gate \<and> customShader gate ctx0 = Inr s
         \<and> shader_row s = 6 \<and> shader_span s = 2 \<and> shader_body s 0 16 = 3)
   \<and> (\<exists>gate s. SubtractionFamily 4 = Some gate \<and> customShader gate ctx0 = Inr s
         \<and> shader_row s = 6 \<and> shader_span s = 2 \<and> shader_body s 2 16 = 3)"
proof -
  have r: "row ctx0 = 4" by (simp add: ctx0_def)
  have "addition_fn 4 13 = 1 + ((3 + 1) mod 2 ^ 2) * 2 ^ 2
       \<and> subtraction_fn 4 13 = 1 + ((3 - 1) mod 2 ^ 2) * 2 ^ 2
       \<and> addition_fn 4 13 mod 2 ^ 2 = 1
       \<and> subtraction_fn 4 13 mod 2 ^ 2 = 1
       \<and> (\<exists>gate s. AdditionFamily 4 = Some gate \<and> customShader gate ctx0 = Inr s
             \<and> shader_row s = row ctx0 + 2 \<and> shader_span s = 2
             \<and> shader_body s (of_int ((3 + 1) mod 2 ^ 2)) (of_int 16) = of_int 3)
       \<and> (\<exists>gate s. SubtractionFamily 4 = Some gate \<and> customShader gate ctx0 = Inr s
             \<and> shader_row s = row ctx0 + 2 \<and> shader_span s = 2
             \<and> shader_body s (of_int ((3 - 1) mod 2 ^ 2)) (of_int 16) = of_int 3)"
    by (rule addition_subtraction_maps [of 4 13 2 2 1 3 16 ctx0])
       (simp_all add: r js_shl_def toInt32_def)
  then show ?thesis unfolding r by (simp add: js_shl_def toInt32_def)
qed

section \<open>Permutation gates and their inverses\<close>

lemma increment_undo:
  fixes x S :: int
  assumes "0 \<le> x" "x < S"
  shows "((x - 1 + S) mod S - (- 1) + S) mod S = x"
    and "((x - (- 1) + S) mod S - 1 + S) mod S = x"
proof -
  have xm: "x mod S = x" using assms by (simp add: mod_pos_pos_trivial)
  have "((x - 1 + S) mod S - (- 1) + S) mod S = ((x - 1 + S) mod S + (1 + S)) mod S"
    by (simp add: algebra_simps)
  also have "\<dots> = (x - 1 + S + (1 + S)) mod S" by (simp only: mod_add_left_eq)
  also have "\<dots> = x mod S" by simp
  finally show "((x - 1 + S) mod S - (- 1) + S) mod S = x" using xm by simp
  have "((x - (- 1) + S) mod S - 1 + S) mod S = ((x + 1 + S) mod S + (S - 1)) mod S"
    by (simp add: algebra_simps)
  also have "\<dots> = (x + 1 + S + (S - 1)) mod S" by (simp only: mod_add_left_eq)
  also have "\<dots> = x mod S" by simp
  finally show "((x - (- 1) + S) mod S - 1 + S) mod S = x" using xm by simp
qed

lemma IncrementFamily_shader:
  assumes "IncrementFamily n = Some gate"
  shows "1 \<le> n \<and> n \<le> 16
       \<and> knownMatrix gate = (if n \<ge> 4 then None else Some (INCREMENT_MATRIX_MAKER n))
       \<and> customShader gate ctx = Inr (incrementShaderFunc ctx n 1)"
  using assms by (auto simp: IncrementFamily_def generateFamily_def split: if_splits)

lemma DecrementFamily_shader:
  assumes "DecrementFamily n = Some gate"
  shows "1 \<le> n \<and> n \<le> 16
       \<and> knownMatrix gate = (if n \<ge> 4 then None else Some (DECREMENT_MATRIX_MAKER n))
       \<and> customShader gate ctx = Inr (incrementShaderFunc ctx n (- 1))"
  using assms by (auto simp: DecrementFamily_def generateFamily_def split: if_splits)

lemma PlusAFamily_shader:
  assumes "PlusAFamily n = Some gate"
  shows "1 \<le> n \<and> n \<le> 16
       \<and> customShader gate ctx =
          (case customContextFromGates ctx ''Input Range A'' of
             None \<Rightarrow> Inl TypeError
           | Some r \<Rightarrow> Inr (additionShaderFunc ctx n (offset r) (length_bits r) 1))"
  using assms
  by (auto simp: PlusAFamily_def generateFamily_def get_range_def split: if_splits option.splits)

lemma MinusAFamily_shader:
  assumes "MinusAFamily n = Some gate"
  shows "1 \<le> n \<and> n \<le> 16
       \<and> customShader gate ctx =
          (case customContextFromGates ctx ''Input Range A'' of
             None \<Rightarrow> Inl TypeError
           | Some r \<Rightarrow> Inr (additionShaderFunc ctx n (offset r) (length_bits r) (- 1)))"
  using assms
  by (auto simp: MinusAFamily_def generateFamily_def get_range_def split: if_splits option.splits)

lemma incrementShaderFunc_body:
  "shader_body (incrementShaderFunc ctx n (of_int am)) (of_int x) f
   = of_int ((x - am + 2 ^ n) mod 2 ^ n)"
  using incrementShader_int[of am "2 ^ n" x f]
  by (simp add: incrementShaderFunc_def ketShaderPermute_def ketArgs_def)

lemma additionShaderFunc_body:
  "shader_body (additionShaderFunc ctx n off len (of_int fac)) (of_int x) (of_int g)
   = of_int ((x + 2 ^ n - (((g div js_shl 1 off) mod js_shl 1 len) * fac) mod 2 ^ n) mod 2 ^ n)"
  using ADDITION_SHADER_int[of "js_shl 1 off" "js_shl 1 len" fac "2 ^ n" x g]
  by (simp add: additionShaderFunc_def ketShaderPermute_def ketArgs_def)

lemma plus_minus_undo:
  fixes x d S :: int
  assumes "0 \<le> x" "x < S"
  shows "((x + S - (d * 1) mod S) mod S + S - (d * (- 1)) mod S) mod S = x"
    and "((x + S - (d * (- 1)) mod S) mod S + S - (d * 1) mod S) mod S = x"
proof -
  have xm: "x mod S = x" using assms by (simp add: mod_pos_pos_trivial)
  show "((x + S - (d * 1) mod S) mod S + S - (d * (- 1)) mod S) mod S = x"
    using mod_shift_cancel'[of x S d] xm by simp
  show "((x + S - (d * (- 1)) mod S) mod S + S - (d * 1) mod S) mod S = x"
    using mod_shift_cancel'[of x S "- d"] xm by simp
qed

text \<open>
  C3. For every span of the families (1 to 16) and every basis state \<open>out_id\<close> below
  \<open>2^span\<close>, the body of the increment shader is \<open>mod(out_id - 1 + 2^span, 2^span)\<close>,
  that of the decrement shader \<open>mod(out_id + 1 + 2^span, 2^span)\<close>, and composing the two,
  in either order, gives \<open>out_id\<close> back; likewise the bodies of the \<open>+A\<close> and
  \<open>-A\<close> shaders, composed in either order at two indices that hold the same value
  \<open>d\<close> in range A, give \<open>out_id\<close> back.
\<close>
theorem permutation_inverse_pairs:
  fixes out_id g1 g2 d :: int
  assumes "IncrementFamily span_n = Some inc" and "DecrementFamily span_n = Some dec"
    and "PlusAFamily span_n = Some plusA" and "MinusAFamily span_n = Some minusA"
    and "customContextFromGates ctx ''Input Range A'' = Some \<lparr>offset = off, length_bits = len\<rparr>"
    and "0 \<le> out_id" and "out_id < 2 ^ span_n"
    and "(g1 div js_shl 1 off) mod js_shl 1 len = d"
    and "(g2 div js_shl 1 off) mod js_shl 1 len = d"
  shows "\<exists>si sd sp sm.
           customShader inc ctx = Inr si \<and> customShader dec ctx = Inr sd
         \<and> customShader plusA ctx = Inr sp \<and> customShader minusA ctx = Inr sm
         \<and> shader_body si (of_int out_id) (of_int g1)
              = of_int ((out_id - 1 + 2 ^ span_n) mod 2 ^ span_n)
         \<and> shader_body sd (of_int out_id) (of_int g1)
              = of_int ((out_id + 1 + 2 ^ span_n) mod 2 ^ span_n)
         \<and> shader_body sd (shader_body si (of_int out_id) (of_int g1)) (of_int g2) = of_int out_id
         \<and> shader_body si (shader_body sd (of_int out_id) (of_int g1)) (of_int g2) = of_int out_id
         \<and> shader_body sm (shader_body sp (of_int out_id) (of_int g1)) (of_int g2) = of_int out_id
         \<and> shader_body sp (shader_body sm (of_int out_id) (of_int g1)) (of_int g2) = of_int out_id"
proof -
  note i = incrementShaderFunc_body[of ctx span_n 1, simplified]
    and d = incrementShaderFunc_body[of ctx span_n "- 1", simplified]
    and p = additionShaderFunc_body[of ctx span_n off len 1, simplified]
    and m = additionShaderFunc_body[of ctx span_n off len "- 1", simplified]
  have 1: "shader_body (incrementShaderFunc ctx span_n (- 1))
             (shader_body (incrementShaderFunc ctx span_n 1) (of_int out_id) (of_int g1)) (of_int g2)
           = of_int out_id"
    unfolding i d using increment_undo(1)[OF assms(6,7)] by simp
  have 2: "shader_body (incrementShaderFunc ctx span_n 1)
             (shader_body (incrementShaderFunc ctx span_n (- 1)) (of_int out_id) (of_int g1)) (of_int g2)
           = of_int out_id"
    unfolding i d using increment_undo(2)[OF assms(6,7)] by simp
  have 3: "shader_body (additionShaderFunc ctx span_n off len (- 1))
             (shader_body (additionShaderFunc ctx span_n off len 1) (of_int out_id) (of_int g1)) (of_int g2)
           = of_int out_id"
    unfolding p m assms(8,9) using plus_minus_undo(1)[OF assms(6,7), of d] by simp
  have 4: "shader_body (additionShaderFunc ctx span_n off len 1)
             (shader_body (additionShaderFunc ctx span_n off len (- 1)) (of_int out_id) (of_int g1)) (of_int g2)
           = of_int out_id"
    unfolding p m assms(8,9) using plus_minus_undo(2)[OF assms(6,7), of d] by simp
  show ?thesis
    using IncrementFamily_shader[OF assms(1), of ctx] DecrementFamily_shader[OF assms(2), of ctx]
      PlusAFamily_shader[OF assms(3), of ctx] MinusAFamily_shader[OF assms(4), of ctx]
      1 2 3 4 i d
    by (simp add: assms(5))
qed

text \<open>
  Span 3 on bits 4 to 6, range A on bits 1 to 3 with value 5, \<open>out_id = 7\<close>: the
  increment body reads 6, the decrement body reads 0 (wrapping), and the \<open>+A\<close> body
  reads 2, at index \<open>2 * 16 + 5 * 2 = 42\<close>.
\<close>
theorem permutation_inverse_pairs_witness:
  "IncrementFamily 3 = Some (the (IncrementFamily 3))
   \<and> DecrementFamily 3 = Some (the (DecrementFamily 3))
   \<and> PlusAFamily 3 = Some (the (PlusAFamily 3))
   \<and> MinusAFamily 3 = Some (the (MinusAFamily 3))
   \<and> customContextFromGates ctx0 ''Input Range A'' = Some \<lparr>offset = 1, length_bits = 3\<rparr>
   \<and> (0::int) \<le> 7 \<and> (7::int) < 2 ^ 3
   \<and> (122 div js_shl 1 1) mod js_shl 1 3 = 5
   \<and> (42 div js_shl 1 1) mod js_shl 1 3 = 5
   \<and> (\<exists>si sd sp sm.
           customShader (the (IncrementFamily 3)) ctx0 = Inr si
         \<and> customShader (the (DecrementFamily 3)) ctx0 = Inr sd
         \<and> customShader (the (PlusAFamily 3)) ctx0 = Inr sp
         \<and> customShader (the (MinusAFamily 3)) ctx0 = Inr sm
         \<and> shader_body si 7 122 = 6
         \<and> shader_body sd 7 122 = 0
         \<and> shader_body sd (shader_body si 7 122) 42 = 7
         \<and> shader_body si (shader_body sd 7 122) 42 = 7
         \<and> shader_body sm (shader_body sp 7 122) 42 = 7
         \<and> shader_body sp (shader_body sm 7 122) 42 = 7)"
proof -
  have h1: "IncrementFamily 3 = Some (the (IncrementFamily 3))"
    by (simp add: IncrementFamily_def generateFamily_def)
  have h2: "DecrementFamily 3 = Some (the (DecrementFamily 3))"
    by (simp add: DecrementFamily_def generateFamily_def)
  have h3: "PlusAFamily 3 = Some (the (PlusAFamily 3))"
    by (simp add: PlusAFamily_def generateFamily_def)
  have h4: "MinusAFamily 3 = Some (the (MinusAFamily 3))"
    by (simp add: MinusAFamily_def generateFamily_def)
  have h5: "customContextFromGates ctx0 ''Input Range A'' = Some \<lparr>offset = 1, length_bits = 3\<rparr>"
    by (simp add: ctx0_def)
  have h8: "(122 div js_shl 1 1) mod js_shl 1 3 = 5"
    and h9: "(42 div js_shl 1 1) mod js_shl 1 3 = 5"
    by (simp_all add: js_shl_def toInt32_def)
  have h6: "(0::int) \<le> 7" and h7: "(7::int) < 2 ^ 3" by simp_all
  from permutation_inverse_pairs [OF h1 h2 h3 h4 h5 h6 h7 h8 h9]
  show ?thesis using h1 h2 h3 h4 h5 h8 h9 by simp
qed


section \<open>Conditional flips\<close>

lemma FlipBelow_shader:
  assumes "FlipBelow n = Some gate"
  shows "1 \<le> n \<and> n \<le> 16
       \<and> customShader gate ctx =
          (case customContextFromGates ctx ''Input Range A'' of
             None \<Rightarrow> Inl TypeError
           | Some r \<Rightarrow> Inr (flipShaderFunc ctx n (offset r) (length_bits r)))"
  using assms
  by (auto simp: FlipBelow_def generateFamily_def get_range_def split: if_splits option.splits)

lemma FlipBelow2_shader:
  assumes "FlipBelow2 n = Some gate"
  shows "1 \<le> n \<and> n \<le> 16
       \<and> customShader gate ctx =
          (case customContextFromGates ctx ''Input Range A'' of
             None \<Rightarrow> Inl TypeError
           | Some r \<Rightarrow> Inr (flipShaderFunc2 ctx n (offset r) (length_bits r)))"
  using assms
  by (auto simp: FlipBelow2_def generateFamily_def get_range_def split: if_splits option.splits)

lemma flipShaderFunc_body:
  "shader_body (flipShaderFunc ctx n off len) (of_int x) (of_int g)
   = of_int (flip_below ((g div js_shl 1 off) mod js_shl 1 len) (2 ^ n) x)"
  using FLIP_SHADER_int[of "js_shl 1 off" "js_shl 1 len" "2 ^ n" x g]
  by (simp add: flipShaderFunc_def ketShaderPermute_def ketArgs_def flip_below_def Let_def)

lemma flipShaderFunc2_body:
  "shader_body (flipShaderFunc2 ctx n off len) (of_int x) (of_int g)
   = of_int (flip_at_or_below ((g div js_shl 1 off) mod js_shl 1 len) (2 ^ n) x)"
  using FLIP_SHADER_2_int[of "js_shl 1 off" "js_shl 1 len" "2 ^ n" x g]
  by (simp add: flipShaderFunc2_def ketShaderPermute_def ketArgs_def flip_at_or_below_def Let_def)

lemma flip_below_involution:
  assumes "0 \<le> x" "x < S"
  shows "flip_below d S (flip_below d S x) = x"
proof (cases "x \<ge> d")
  case True
  then show ?thesis by (simp add: flip_below_def)
next
  case False
  have S: "0 < S" using assms by simp
  have "0 \<le> d - 1 - x" using False by simp
  then have "(d - 1 - x) mod S \<le> d - 1 - x" by (rule zmod_le_nonneg_dividend)
  then have lt: "\<not> (d - 1 - x) mod S \<ge> d" using assms(1) by simp
  have "(d - 1 - (d - 1 - x) mod S) mod S = (d - 1 - (d - 1 - x)) mod S"
    by (simp only: mod_diff_right_eq)
  also have "\<dots> = x" using assms by (simp add: mod_pos_pos_trivial)
  finally show ?thesis using False lt by (simp add: flip_below_def)
qed

lemma flip_at_or_below_involution:
  assumes "0 \<le> x" "x < S"
  shows "flip_at_or_below d S (flip_at_or_below d S x) = x"
proof (cases "x > d")
  case True
  then show ?thesis by (simp add: flip_at_or_below_def)
next
  case False
  have "0 \<le> d - x" using False by simp
  then have "(d - x) mod S \<le> d - x" by (rule zmod_le_nonneg_dividend)
  then have lt: "\<not> (d - x) mod S > d" using assms(1) by simp
  have "(d - (d - x) mod S) mod S = (d - (d - x)) mod S"
    by (simp only: mod_diff_right_eq)
  also have "\<dots> = x" using assms by (simp add: mod_pos_pos_trivial)
  finally show ?thesis using False lt by (simp add: flip_at_or_below_def)
qed

text \<open>
  C6. For every span of the families, every threshold \<open>d\<close> extracted from range A and
  every \<open>out_id\<close> below \<open>2^span\<close>, the body of the flip-below shader is the identity
  when \<open>out_id >= d\<close> and \<open>mod(d - 1 - out_id, 2^span)\<close> otherwise, that of the
  flip-at-or-below shader is the identity when \<open>out_id > d\<close> and
  \<open>mod(d - out_id, 2^span)\<close> otherwise, and applying either twice, at two indices that
  hold the same \<open>d\<close>, returns \<open>out_id\<close>.
\<close>
theorem flip_involution:
  fixes out_id g1 g2 d :: int
  assumes "FlipBelow span_n = Some fb" and "FlipBelow2 span_n = Some fb2"
    and "customContextFromGates ctx ''Input Range A'' = Some \<lparr>offset = off, length_bits = len\<rparr>"
    and "0 \<le> out_id" and "out_id < 2 ^ span_n"
    and "(g1 div js_shl 1 off) mod js_shl 1 len = d"
    and "(g2 div js_shl 1 off) mod js_shl 1 len = d"
  shows "\<exists>s s2.
           customShader fb ctx = Inr s \<and> customShader fb2 ctx = Inr s2
         \<and> shader_body s (of_int out_id) (of_int g1) = of_int (flip_below d (2 ^ span_n) out_id)
         \<and> shader_body s2 (of_int out_id) (of_int g1)
              = of_int (flip_at_or_below d (2 ^ span_n) out_id)
         \<and> shader_body s (shader_body s (of_int out_id) (of_int g1)) (of_int g2) = of_int out_id
         \<and> shader_body s2 (shader_body s2 (of_int out_id) (of_int g1)) (of_int g2) = of_int out_id"
proof -
  note b = flipShaderFunc_body[of ctx span_n off len] flipShaderFunc2_body[of ctx span_n off len]
  have 1: "shader_body (flipShaderFunc ctx span_n off len)
             (shader_body (flipShaderFunc ctx span_n off len) (of_int out_id) (of_int g1)) (of_int g2)
           = of_int out_id"
    unfolding b assms(6,7) flip_below_involution[OF assms(4,5)] ..
  have 2: "shader_body (flipShaderFunc2 ctx span_n off len)
             (shader_body (flipShaderFunc2 ctx span_n off len) (of_int out_id) (of_int g1)) (of_int g2)
           = of_int out_id"
    unfolding b assms(6,7) flip_at_or_below_involution[OF assms(4,5)] ..
  show ?thesis
    using FlipBelow_shader[OF assms(1), of ctx] FlipBelow2_shader[OF assms(2), of ctx]
      1 2 b[of out_id g1]
    by (simp add: assms(3,6))
qed

text \<open>
  Span 3 and \<open>d = 5\<close>: flip-below sends 1 to 3 and back, flip-at-or-below sends 1 to 4
  and back.
\<close>
theorem flip_involution_witness:
  "FlipBelow 3 = Some (the (FlipBelow 3)) \<and> FlipBelow2 3 = Some (the (FlipBelow2 3))
   \<and> customContextFromGates ctx0 ''Input Range A'' = Some \<lparr>offset = 1, length_bits = 3\<rparr>
   \<and> (0::int) \<le> 1 \<and> (1::int) < 2 ^ 3
   \<and> (26 div js_shl 1 1) mod js_shl 1 3 = 5
   \<and> (58 div js_shl 1 1) mod js_shl 1 3 = 5
   \<and> (\<exists>s s2.
           customShader (the (FlipBelow 3)) ctx0 = Inr s
         \<and> customShader (the (FlipBelow2 3)) ctx0 = Inr s2
         \<and> shader_body s 1 26 = 3
         \<and> shader_body s2 1 26 = 4
         \<and> shader_body s (shader_body s 1 26) 58 = 1
         \<and> shader_body s2 (shader_body s2 1 26) 58 = 1)"
proof -
  have h1: "FlipBelow 3 = Some (the (FlipBelow 3))"
    by (simp add: FlipBelow_def generateFamily_def)
  have h2: "FlipBelow2 3 = Some (the (FlipBelow2 3))"
    by (simp add: FlipBelow2_def generateFamily_def)
  have h3: "customContextFromGates ctx0 ''Input Range A'' = Some \<lparr>offset = 1, length_bits = 3\<rparr>"
    by (simp add: ctx0_def)
  have h6: "(26 div js_shl 1 1) mod js_shl 1 3 = 5"
    and h7: "(58 div js_shl 1 1) mod js_shl 1 3 = 5"
    by (simp_all add: js_shl_def toInt32_def)
  have h4: "(0::int) \<le> 1" and h5: "(1::int) < 2 ^ 3" by simp_all
  from flip_involution [OF h1 h2 h3 h4 h5 h6 h7]
  show ?thesis using h1 h2 h3 h6 h7 by (simp add: flip_below_def flip_at_or_below_def)
qed

section \<open>Comparison gates\<close>

lemma comparisonGate_shader:
  assumes "customContextFromGates ctx ''Input Range A'' = Some \<lparr>offset = lo, length_bits = ll\<rparr>"
    and "customContextFromGates ctx ''Input Range B'' = Some \<lparr>offset = ro, length_bits = rl\<rparr>"
  shows "customShader (comparisonGate c) ctx =
           Inr (ketShaderPermute
                  (comparisonShader c (of_int (js_shl 1 lo)) (of_int (js_shl 1 ll))
                                      (of_int (js_shl 1 ro)) (of_int (js_shl 1 rl)))
                  \<lparr>ket_row = row ctx, ket_span = 1\<rparr>)"
  by (simp add: comparisonGate_def customComparisonShader_def get_range_def ketArgs_def assms)

lemma comparison_body:
  fixes out_id g a b :: int
  assumes "out_id = 0 \<or> out_id = 1"
    and "(g div so) mod ss = a" and "(g div ro) mod rs = b"
  shows "comparisonShader c (of_int so) (of_int ss) (of_int ro) (of_int rs) S (of_int out_id) (of_int g)
         = of_int (if compare c (of_int a) (of_int b) then (out_id + 1) mod 2 else out_id)"
  using assms(1) unfolding comparisonShader_int assms(2,3) by auto

text \<open>
  C5 (amended). For each comparison gate (\<open><\<close>, \<open>>\<close>, \<open><=\<close>, \<open>>=\<close>, \<open>=\<close>,
  \<open>!=\<close>) and for all values \<open>a\<close> and \<open>b\<close> that \<open>full_out_id\<close> holds in the ranges A
  and B, the body of the gate's shader returns the toggled target bit,
  \<open>mod(out_id + 1, 2)\<close>, exactly when the literal integer comparison of \<open>a\<close> and
  \<open>b\<close> holds, and \<open>out_id\<close> otherwise; the program has the permutation shape, bound
  to 1 qubit at the row of the gate.
\<close>
theorem comparison_toggles:
  fixes out_id g a b :: int
  assumes "customContextFromGates ctx ''Input Range A'' = Some \<lparr>offset = lo, length_bits = ll\<rparr>"
    and "customContextFromGates ctx ''Input Range B'' = Some \<lparr>offset = ro, length_bits = rl\<rparr>"
    and "out_id = 0 \<or> out_id = 1"
    and "(g div js_shl 1 lo) mod js_shl 1 ll = a"
    and "(g div js_shl 1 ro) mod js_shl 1 rl = b"
    and "toggled = (out_id + 1) mod 2"
  shows "(\<exists>s. customShader ALessThanB ctx = Inr s
            \<and> shader_shape s = Permutation \<and> shader_span s = 1 \<and> shader_row s = row ctx
            \<and> shader_body s (of_int out_id) (of_int g) = of_int (if a < b then toggled else out_id))
       \<and> (\<exists>s. customShader AGreaterThanB ctx = Inr s
            \<and> shader_shape s = Permutation \<and> shader_span s = 1 \<and> shader_row s = row ctx
            \<and> shader_body s (of_int out_id) (of_int g) = of_int (if a > b then toggled else out_id))
       \<and> (\<exists>s. customShader ALessThanOrEqualToB ctx = Inr s
            \<and> shader_shape s = Permutation \<and> shader_span s = 1 \<and> shader_row s = row ctx
            \<and> shader_body s (of_int out_id) (of_int g) = of_int (if a \<le> b then toggled else out_id))
       \<and> (\<exists>s. customShader AGreaterThanOrEqualToB ctx = Inr s
            \<and> shader_shape s = Permutation \<and> shader_span s = 1 \<and> shader_row s = row ctx
            \<and> shader_body s (of_int out_id) (of_int g) = of_int (if a \<ge> b then toggled else out_id))
       \<and> (\<exists>s. customShader AEqualToB ctx = Inr s
            \<and> shader_shape s = Permutation \<and> shader_span s = 1 \<and> shader_row s = row ctx
            \<and> shader_body s (of_int out_id) (of_int g) = of_int (if a = b then toggled else out_id))
       \<and> (\<exists>s. customShader ANotEqualToB ctx = Inr s
            \<and> shader_shape s = Permutation \<and> shader_span s = 1 \<and> shader_row s = row ctx
            \<and> shader_body s (of_int out_id) (of_int g) = of_int (if a \<noteq> b then toggled else out_id))"
proof -
  note sh = comparisonGate_shader[OF assms(1,2)]
  note bd = comparison_body[OF assms(3,4,5), folded assms(6)]
  have 1: "\<exists>s. customShader ALessThanB ctx = Inr s
            \<and> shader_shape s = Permutation \<and> shader_span s = 1 \<and> shader_row s = row ctx
            \<and> shader_body s (of_int out_id) (of_int g) = of_int (if a < b then toggled else out_id)"
    unfolding ALessThanB_def sh using bd[of LessThan] by (simp add: ketShaderPermute_def ketArgs_def)
  have 2: "\<exists>s. customShader AGreaterThanB ctx = Inr s
            \<and> shader_shape s = Permutation \<and> shader_span s = 1 \<and> shader_row s = row ctx
            \<and> shader_body s (of_int out_id) (of_int g) = of_int (if a > b then toggled else out_id)"
    unfolding AGreaterThanB_def sh using bd[of GreaterThan] by (simp add: ketShaderPermute_def ketArgs_def)
  have 3: "\<exists>s. customShader ALessThanOrEqualToB ctx = Inr s
            \<and> shader_shape s = Permutation \<and> shader_span s = 1 \<and> shader_row s = row ctx
            \<and> shader_body s (of_int out_id) (of_int g) = of_int (if a \<le> b then toggled else out_id)"
    unfolding ALessThanOrEqualToB_def sh using bd[of LessEq] by (simp add: ketShaderPermute_def ketArgs_def)
  have 4: "\<exists>s. customShader AGreaterThanOrEqualToB ctx = Inr s
            \<and> shader_shape s = Permutation \<and> shader_span s = 1 \<and> shader_row s = row ctx
            \<and> shader_body s (of_int out_id) (of_int g) = of_int (if a \<ge> b then toggled else out_id)"
    unfolding AGreaterThanOrEqualToB_def sh using bd[of GreaterEq] by (simp add: ketShaderPermute_def ketArgs_def)
  have 5: "\<exists>s. customShader AEqualToB ctx = Inr s
            \<and> shader_shape s = Permutation \<and> shader_span s = 1 \<and> shader_row s = row ctx
            \<and> shader_body s (of_int out_id) (of_int g) = of_int (if a = b then toggled else out_id)"
    unfolding AEqualToB_def sh using bd[of EqualTo] by (simp add: ketShaderPermute_def ketArgs_def)
  have 6: "\<exists>s. customShader ANotEqualToB ctx = Inr s
            \<and> shader_shape s = Permutation \<and> shader_span s = 1 \<and> shader_row s = row ctx
            \<and> shader_body s (of_int out_id) (of_int g) = of_int (if a \<noteq> b then toggled else out_id)"
    unfolding ANotEqualToB_def sh using bd[of NotEqualTo] by (simp add: ketShaderPermute_def ketArgs_def)
  from 1 2 3 4 5 6 show ?thesis by blast
qed

text \<open>
  Range A of length 2 at bit 0 with value 3, range B of length 3 at bit 2 with value 5,
  the target bit 5 set: \<open>full_out_id = 3 + 5 * 4 + 32 = 55\<close>.
\<close>
theorem comparison_toggles_witness:
  "customContextFromGates ctx1 ''Input Range A'' = Some \<lparr>offset = 0, length_bits = 2\<rparr>
   \<and> customContextFromGates ctx1 ''Input Range B'' = Some \<lparr>offset = 2, length_bits = 3\<rparr>
   \<and> (55 div js_shl 1 0) mod js_shl 1 2 = 3
   \<and> (55 div js_shl 1 2) mod js_shl 1 3 = 5
   \<and> (0::int) = (1 + 1) mod 2
   \<and> (\<exists>s. customShader ALessThanB ctx1 = Inr s
            \<and> shader_shape s = Permutation \<and> shader_span s = 1 \<and> shader_row s = 5
            \<and> shader_body s 1 55 = 0)
   \<and> (\<exists>s. customShader AGreaterThanB ctx1 = Inr s \<and> shader_body s 1 55 = 1)
   \<and> (\<exists>s. customShader ALessThanOrEqualToB ctx1 = Inr s \<and> shader_body s 1 55 = 0)
   \<and> (\<exists>s. customShader AGreaterThanOrEqualToB ctx1 = Inr s \<and> shader_body s 1 55 = 1)
   \<and> (\<exists>s. customShader AEqualToB ctx1 = Inr s \<and> shader_body s 1 55 = 1)
   \<and> (\<exists>s. customShader ANotEqualToB ctx1 = Inr s \<and> shader_body s 1 55 = 0)"
proof -
  have h1: "customContextFromGates ctx1 ''Input Range A'' = Some \<lparr>offset = 0, length_bits = 2\<rparr>"
    and h2: "customContextFromGates ctx1 ''Input Range B'' = Some \<lparr>offset = 2, length_bits = 3\<rparr>"
    by (simp_all add: ctx1_def)
  have h3: "(1::int) = 0 \<or> (1::int) = 1" by simp
  have h4: "(55 div js_shl 1 0) mod js_shl 1 2 = 3"
    and h5: "(55 div js_shl 1 2) mod js_shl 1 3 = 5"
    by (simp_all add: js_shl_def toInt32_def)
  have h6: "(0::int) = (1 + 1) mod 2" by simp
  have r: "row ctx1 = 5" by (simp add: ctx1_def)
  from comparison_toggles [OF h1 h2 h3 h4 h5 h6]
  show ?thesis using h1 h2 h4 h5 unfolding r by auto
qed

text \<open>
  The claim as stated, that the comparison is expressed as the general-transform shape,
  fails: \<open>customComparisonShader\<close> builds its program with \<open>ketShaderPermute\<close>, and
  its body returns the index to read, not an amplitude.
\<close>
theorem comparison_toggles_counterexample:
  "shader_shape (projr (customShader ALessThanB ctx1)) \<noteq> General"
  by (simp add: ALessThanB_def comparisonGate_def customComparisonShader_def get_range_def
        ctx1_def ketShaderPermute_def ketArgs_def)

section \<open>Dense matrices and shaders\<close>

lemma offset_fn_eq:
  assumes "n \<le> 30" "- (2 ^ 31) \<le> e + off" "e + off < 2 ^ 31"
  shows "offset_fn off n e = (e + off) mod 2 ^ n"
  unfolding offset_fn_def by (rule js_and_mask[OF assms(2,3,1)])

lemma increment_source:
  assumes "n \<le> 30" "0 \<le> e" "e < 2 ^ n" "0 \<le> lo" "lo < 2 ^ row ctx"
  shows "source_id (incrementShaderFunc ctx n 1) (full_id lo (row ctx) n hi (offset_fn 1 n e))
         = of_int (full_id lo (row ctx) n hi e)"
    and "source_id (incrementShaderFunc ctx n (- 1)) (full_id lo (row ctx) n hi (offset_fn (- 1) n e))
         = of_int (full_id lo (row ctx) n hi e)"
proof -
  have e30: "e < 2 ^ 30" using assms(3) pow2_le_30[OF assms(1)] by simp
  have up: "offset_fn 1 n e = (e + 1) mod 2 ^ n"
    using assms(2) e30 by (intro offset_fn_eq[OF assms(1)]) simp_all
  have dn: "offset_fn (- 1) n e = (e - 1) mod 2 ^ n"
    using assms(2) e30 offset_fn_eq[OF assms(1), of e "- 1"] by simp
  have em: "e mod 2 ^ n = e" using assms(2,3) by (simp add: mod_pos_pos_trivial)
  have b1: "incrementShader 1 (2 ^ n) (of_int ((e + 1) mod 2 ^ n)) f = of_int e" for f
    using incrementShader_int[of 1 "2 ^ n" "(e + 1) mod 2 ^ n" f] by (simp add: mod_simps em)
  have b2: "incrementShader (- 1) (2 ^ n) (of_int ((e - 1) mod 2 ^ n)) f = of_int e" for f
    using incrementShader_int[of "- 1" "2 ^ n" "(e - 1) mod 2 ^ n" f] by (simp add: mod_simps em)
  show "source_id (incrementShaderFunc ctx n 1) (full_id lo (row ctx) n hi (offset_fn 1 n e))
         = of_int (full_id lo (row ctx) n hi e)"
    unfolding incrementShaderFunc_def ketArgs_def up
    by (rule source_id_permute[where body = "incrementShader 1", OF assms(4,5)])
       (simp_all add: b1)
  show "source_id (incrementShaderFunc ctx n (- 1)) (full_id lo (row ctx) n hi (offset_fn (- 1) n e))
         = of_int (full_id lo (row ctx) n hi e)"
    unfolding incrementShaderFunc_def ketArgs_def dn
    by (rule source_id_permute[where body = "incrementShader (- 1)", OF assms(4,5)])
       (simp_all add: b2)
qed

lemma full_id_split:
  "full_id lo r (sa + sb) hi (a + b * 2 ^ sa) = full_id (lo + a * 2 ^ r) (r + sa) sb hi b"
  by (simp add: full_id_def power_add algebra_simps)

lemma full_id_addend:
  fixes lo a :: int
  assumes "0 \<le> lo" "lo < 2 ^ r" "0 \<le> a" "a < 2 ^ sa"
  shows "(full_id lo r (sa + sb) hi (a + k * 2 ^ sa) div 2 ^ r) mod 2 ^ sa = a"
proof -
  have "full_id lo r (sa + sb) hi (a + k * 2 ^ sa)
        = lo + a * 2 ^ r + (k + hi * 2 ^ sb) * 2 ^ (r + sa)"
    by (simp add: full_id_def power_add algebra_simps)
  then show ?thesis
    using slice_embed[OF assms, of "k + hi * 2 ^ sb"] by simp
qed

lemma addition_source:
  assumes "n \<le> 30" "0 \<le> e" "e < 2 ^ n" "0 \<le> lo" "lo < 2 ^ r" "r \<le> 30"
  shows "source_id (ketShaderPermute
                      (ADDITION_SHADER (of_int (js_shl 1 r)) (of_int (js_shl 1 (n div 2))) 1)
                      \<lparr>ket_row = r + n div 2, ket_span = (n + 1) div 2\<rparr>)
           (full_id lo r n hi (addition_fn n e))
         = of_int (full_id lo r n hi e)"
    and "source_id (ketShaderPermute
                      (ADDITION_SHADER (of_int (js_shl 1 r)) (of_int (js_shl 1 (n div 2))) (- 1))
                      \<lparr>ket_row = r + n div 2, ket_span = (n + 1) div 2\<rparr>)
           (full_id lo r n hi (subtraction_fn n e))
         = of_int (full_id lo r n hi e)"
proof -
  define sa where "sa = n div 2"
  define sb where "sb = (n + 1) div 2"
  define a where "a = e mod 2 ^ sa"
  define b where "b = e div 2 ^ sa"
  have n: "n = sa + sb" unfolding sa_def sb_def by linarith
  have sa: "sa \<le> 30" using assms(1) unfolding sa_def by simp
  have a0: "0 \<le> a" and a1: "a < 2 ^ sa" unfolding a_def by simp_all
  have b0: "0 \<le> b" and b1: "b < 2 ^ sb"
    unfolding b_def sa_def sb_def by (rule half_bounds[OF assms(2,3)])+
  have e: "e = a + b * 2 ^ sa" unfolding a_def b_def by (rule mod_div_mult_eq[symmetric])
  have lo0: "0 \<le> lo + a * 2 ^ r" using assms(4) a0 by simp
  have "a * 2 ^ r \<le> (2 ^ sa - 1) * 2 ^ r" using a1 by (intro mult_right_mono) simp_all
  then have lo1: "lo + a * 2 ^ r < 2 ^ (r + sa)"
    using assms(5) by (simp add: power_add algebra_simps)
  have d: "(full_id lo r (sa + sb) hi (a + k * 2 ^ sa) div js_shl 1 r) mod js_shl 1 sa = a" for k
    unfolding js_shl_1[OF assms(6)] js_shl_1[OF sa]
    by (rule full_id_addend[OF assms(4,5) a0 a1])
  note bodies = addition_body[OF b0 b1 d]
  have fa: "addition_fn n e = a + ((b + a) mod 2 ^ sb) * 2 ^ sa"
    unfolding addition_fn_eq(1)[OF assms(1-3)] a_def b_def sa_def sb_def ..
  have fs: "subtraction_fn n e = a + ((b - a) mod 2 ^ sb) * 2 ^ sa"
    unfolding addition_fn_eq(2)[OF assms(1-3)] a_def b_def sa_def sb_def ..
  have m0: "0 \<le> k mod 2 ^ sb" and m1: "k mod 2 ^ sb < 2 ^ sb" for k :: int by simp_all
  have tgt: "full_id (lo + a * 2 ^ r) (r + sa) sb hi b = full_id lo r n hi e"
    unfolding full_id_split[symmetric] e[symmetric] n[symmetric] ..
  show "source_id (ketShaderPermute
                      (ADDITION_SHADER (of_int (js_shl 1 r)) (of_int (js_shl 1 (n div 2))) 1)
                      \<lparr>ket_row = r + n div 2, ket_span = (n + 1) div 2\<rparr>)
           (full_id lo r n hi (addition_fn n e))
         = of_int (full_id lo r n hi e)"
    unfolding fa tgt[symmetric] sa_def[symmetric] sb_def[symmetric]
    unfolding n full_id_split
    by (rule source_id_permute[where
            body = "ADDITION_SHADER (of_int (js_shl 1 r)) (of_int (js_shl 1 sa)) 1",
          OF lo0 lo1 m0 m1])
       (simp only: full_id_split[symmetric] bodies(1))
  show "source_id (ketShaderPermute
                      (ADDITION_SHADER (of_int (js_shl 1 r)) (of_int (js_shl 1 (n div 2))) (- 1))
                      \<lparr>ket_row = r + n div 2, ket_span = (n + 1) div 2\<rparr>)
           (full_id lo r n hi (subtraction_fn n e))
         = of_int (full_id lo r n hi e)"
    unfolding fs tgt[symmetric] sa_def[symmetric] sb_def[symmetric]
    unfolding n full_id_split
    by (rule source_id_permute[where
            body = "ADDITION_SHADER (of_int (js_shl 1 r)) (of_int (js_shl 1 sa)) (- 1)",
          OF lo0 lo1 m0 m1])
       (simp only: full_id_split[symmetric] bodies(2))
qed

lemma generateTransition_table:
  assumes "n \<le> 30"
  shows "length (generateTransition (js_shl 1 n) f) = 2 ^ n"
    and "e < 2 ^ n \<Longrightarrow> generateTransition (js_shl 1 n) f ! e = f (int e)"
proof -
  have k: "nat (js_shl 1 n) = 2 ^ n" unfolding js_shl_1[OF assms] by (simp add: nat_power_eq)
  show "length (generateTransition (js_shl 1 n) f) = 2 ^ n"
    unfolding generateTransition_def k by simp
  show "e < 2 ^ n \<Longrightarrow> generateTransition (js_shl 1 n) f ! e = f (int e)"
    unfolding generateTransition_def k by simp
qed

lemma nat_lt_pow2: "e < 2 ^ n \<Longrightarrow> int e < 2 ^ n"
  by (metis of_nat_less_iff of_nat_numeral of_nat_power)

lemma increment_matrix_agrees:
  assumes "n \<le> 30" "0 \<le> lo" "lo < 2 ^ row ctx"
  shows "matrix_agrees (INCREMENT_MATRIX_MAKER n) (incrementShaderFunc ctx n 1) lo (row ctx) n hi"
    and "matrix_agrees (DECREMENT_MATRIX_MAKER n) (incrementShaderFunc ctx n (- 1)) lo (row ctx) n hi"
  unfolding matrix_agrees_def INCREMENT_MATRIX_MAKER_def DECREMENT_MATRIX_MAKER_def makeOffsetMatrix_def
  using generateTransition_table[OF assms(1)] increment_source[OF assms(1) _ _ assms(2,3)] nat_lt_pow2
  by simp_all

lemma addition_matrix_agrees:
  assumes "n \<le> 30" "0 \<le> lo" "lo < 2 ^ r" "r \<le> 30"
  shows "matrix_agrees (ADDITION_MATRIX_MAKER n)
           (ketShaderPermute
              (ADDITION_SHADER (of_int (js_shl 1 r)) (of_int (js_shl 1 (n div 2))) 1)
              \<lparr>ket_row = r + n div 2, ket_span = (n + 1) div 2\<rparr>)
           lo r n hi"
    and "matrix_agrees (SUBTRACTION_MATRIX_MAKER n)
           (ketShaderPermute
              (ADDITION_SHADER (of_int (js_shl 1 r)) (of_int (js_shl 1 (n div 2))) (- 1))
              \<lparr>ket_row = r + n div 2, ket_span = (n + 1) div 2\<rparr>)
           lo r n hi"
  unfolding matrix_agrees_def ADDITION_MATRIX_MAKER_def SUBTRACTION_MATRIX_MAKER_def
  using generateTransition_table[OF assms(1)] addition_source[OF assms(1) _ _ assms(2,3,4)] nat_lt_pow2
  by simp_all

text \<open>
  The repository's test of \<open>ketShaderPermute\<close>: the program with the body
  \<open>mod(out_id + 1.0, 4.0)\<close> on 2 qubits acts like the transition matrix of
  \<open>i => (i - 1) & 3\<close>.
\<close>
lemma ketShaderPermute_test:
  assumes "0 \<le> lo" "lo < 2 ^ r"
  shows "matrix_agrees (generateTransition 4 (\<lambda>i. js_and (i - 1) 3))
           (ketShaderPermute (\<lambda>span_n out_id full_out_id. mod_glsl (out_id + 1) 4)
              \<lparr>ket_row = r, ket_span = 2\<rparr>)
           lo r 2 hi"
proof -
  have m: "js_and (int e - 1) 3 = (int e - 1) mod 4" if "e < 4" for e :: nat
  proof -
    have "js_and (int e - 1) (js_shl 1 2 - 1) = (int e - 1) mod 2 ^ 2"
      using that by (intro js_and_mask) simp_all
    then show ?thesis by (simp add: js_shl_1)
  qed
  have b: "mod_glsl (of_int ((int e - 1) mod 4) + 1) 4 = of_int (int e)" if "e < 4" for e :: nat
  proof -
    have "((int e - 1) mod 4 + 1) mod 4 = int e" using that by presburger
    then show ?thesis using mod_glsl_of_int[of "(int e - 1) mod 4 + 1" 4] by simp
  qed
  have s: "source_id (ketShaderPermute (\<lambda>span_n out_id full_out_id. mod_glsl (out_id + 1) 4)
              \<lparr>ket_row = r, ket_span = 2\<rparr>)
             (full_id lo r 2 hi ((int e - 1) mod 4)) = of_int (full_id lo r 2 hi (int e))"
    if "e < 4" for e :: nat
    by (rule source_id_permute[where body = "\<lambda>span_n out_id full_out_id. mod_glsl (out_id + 1) 4",
          OF assms]) (simp_all add: b[OF that])
  show ?thesis
    unfolding matrix_agrees_def generateTransition_def
    using m s by (simp add: nth_map)
qed

text \<open>
  C4. For every span below the threshold, 4 for increment and decrement and 5 for
  addition and subtraction, the gate has a known matrix, and the matrix agrees with the
  permutation of the gate's shader on every basis state, the gate at any row up to 30 of
  a larger circuit: the shader reads, at the image of a basis state under the forward map
  that generates the matrix, the amplitude of that basis state. For spans at or above the
  threshold the gate has no known matrix.
\<close>
theorem known_matrix_agrees_with_shader:
  assumes "IncrementFamily ni = Some inc" and "DecrementFamily ni = Some dec"
    and "AdditionFamily na = Some add" and "SubtractionFamily na = Some sub"
    and "0 \<le> lo" and "lo < 2 ^ row ctx" and "row ctx \<le> 30"
  shows "(\<exists>s. customShader inc ctx = Inr s
            \<and> (if ni < 4
                then \<exists>m. knownMatrix inc = Some m \<and> matrix_agrees m s lo (row ctx) ni hi
                else knownMatrix inc = None))
       \<and> (\<exists>s. customShader dec ctx = Inr s
            \<and> (if ni < 4
                then \<exists>m. knownMatrix dec = Some m \<and> matrix_agrees m s lo (row ctx) ni hi
                else knownMatrix dec = None))
       \<and> (\<exists>s. customShader add ctx = Inr s
            \<and> (if na < 5
                then \<exists>m. knownMatrix add = Some m \<and> matrix_agrees m s lo (row ctx) na hi
                else knownMatrix add = None))
       \<and> (\<exists>s. customShader sub ctx = Inr s
            \<and> (if na < 5
                then \<exists>m. knownMatrix sub = Some m \<and> matrix_agrees m s lo (row ctx) na hi
                else knownMatrix sub = None))"
proof -
  note fi = IncrementFamily_shader[OF assms(1), of ctx]
    and fd = DecrementFamily_shader[OF assms(2), of ctx]
  have na: "2 \<le> na" "na \<le> 16"
    using assms(3) by (auto simp: AdditionFamily_def generateFamily_def split: if_splits)
  from AdditionFamily_shader[OF na, of ctx] assms(3)
  have fa: "knownMatrix add = (if na \<ge> 5 then None else Some (ADDITION_MATRIX_MAKER na))"
    "customShader add ctx =
       Inr (ketShaderPermute
              (ADDITION_SHADER (of_int (js_shl 1 (row ctx))) (of_int (js_shl 1 (na div 2))) 1)
              \<lparr>ket_row = row ctx + na div 2, ket_span = (na + 1) div 2\<rparr>)"
    by auto
  from SubtractionFamily_shader[OF na, of ctx] assms(4)
  have fs: "knownMatrix sub = (if na \<ge> 5 then None else Some (SUBTRACTION_MATRIX_MAKER na))"
    "customShader sub ctx =
       Inr (ketShaderPermute
              (ADDITION_SHADER (of_int (js_shl 1 (row ctx))) (of_int (js_shl 1 (na div 2))) (- 1))
              \<lparr>ket_row = row ctx + na div 2, ket_span = (na + 1) div 2\<rparr>)"
    by auto
  have ni30: "ni \<le> 30" and na30: "na \<le> 30" using fi na by simp_all
  note mi = increment_matrix_agrees[OF ni30 assms(5,6), of hi]
  note ma = addition_matrix_agrees[OF na30 assms(5,6,7), of hi]
  have 1: "\<exists>s. customShader inc ctx = Inr s
            \<and> (if ni < 4
                then \<exists>m. knownMatrix inc = Some m \<and> matrix_agrees m s lo (row ctx) ni hi
                else knownMatrix inc = None)"
    using fi mi(1) by simp
  have 2: "\<exists>s. customShader dec ctx = Inr s
            \<and> (if ni < 4
                then \<exists>m. knownMatrix dec = Some m \<and> matrix_agrees m s lo (row ctx) ni hi
                else knownMatrix dec = None)"
    using fd mi(2) by simp
  have 3: "\<exists>s. customShader add ctx = Inr s
            \<and> (if na < 5
                then \<exists>m. knownMatrix add = Some m \<and> matrix_agrees m s lo (row ctx) na hi
                else knownMatrix add = None)"
    using fa ma(1) by simp
  have 4: "\<exists>s. customShader sub ctx = Inr s
            \<and> (if na < 5
                then \<exists>m. knownMatrix sub = Some m \<and> matrix_agrees m s lo (row ctx) na hi
                else knownMatrix sub = None)"
    using fs ma(2) by simp
  from 1 2 3 4 show ?thesis by blast
qed

text \<open>
  Spans 3 and 4, below the thresholds, at row 4 with the bits \<open>0101\<close> below the gate
  and a bit set above it; spans 4 and 5 have no known matrix.
\<close>
theorem known_matrix_agrees_with_shader_witness:
  "IncrementFamily 3 = Some (the (IncrementFamily 3))
   \<and> DecrementFamily 3 = Some (the (DecrementFamily 3))
   \<and> AdditionFamily 4 = Some (the (AdditionFamily 4))
   \<and> SubtractionFamily 4 = Some (the (SubtractionFamily 4))
   \<and> IncrementFamily 4 = Some (the (IncrementFamily 4))
   \<and> DecrementFamily 4 = Some (the (DecrementFamily 4))
   \<and> AdditionFamily 5 = Some (the (AdditionFamily 5))
   \<and> SubtractionFamily 5 = Some (the (SubtractionFamily 5))
   \<and> (0::int) \<le> 5 \<and> (5::int) < 2 ^ row ctx0 \<and> row ctx0 \<le> 30
   \<and> (\<exists>s. customShader (the (IncrementFamily 3)) ctx0 = Inr s
         \<and> (\<exists>m. knownMatrix (the (IncrementFamily 3)) = Some m \<and> matrix_agrees m s 5 (row ctx0) 3 1))
   \<and> (\<exists>s. customShader (the (DecrementFamily 3)) ctx0 = Inr s
         \<and> (\<exists>m. knownMatrix (the (DecrementFamily 3)) = Some m \<and> matrix_agrees m s 5 (row ctx0) 3 1))
   \<and> (\<exists>s. customShader (the (AdditionFamily 4)) ctx0 = Inr s
         \<and> (\<exists>m. knownMatrix (the (AdditionFamily 4)) = Some m \<and> matrix_agrees m s 5 (row ctx0) 4 1))
   \<and> (\<exists>s. customShader (the (SubtractionFamily 4)) ctx0 = Inr s
         \<and> (\<exists>m. knownMatrix (the (SubtractionFamily 4)) = Some m \<and> matrix_agrees m s 5 (row ctx0) 4 1))
   \<and> knownMatrix (the (IncrementFamily 4)) = None
   \<and> knownMatrix (the (DecrementFamily 4)) = None
   \<and> knownMatrix (the (AdditionFamily 5)) = None
   \<and> knownMatrix (the (SubtractionFamily 5)) = None"
proof -
  have i3: "IncrementFamily 3 = Some (the (IncrementFamily 3))"
    and i4: "IncrementFamily 4 = Some (the (IncrementFamily 4))"
    by (simp_all add: IncrementFamily_def generateFamily_def)
  have d3: "DecrementFamily 3 = Some (the (DecrementFamily 3))"
    and d4: "DecrementFamily 4 = Some (the (DecrementFamily 4))"
    by (simp_all add: DecrementFamily_def generateFamily_def)
  have a4: "AdditionFamily 4 = Some (the (AdditionFamily 4))"
    and a5: "AdditionFamily 5 = Some (the (AdditionFamily 5))"
    by (simp_all add: AdditionFamily_def generateFamily_def)
  have s4: "SubtractionFamily 4 = Some (the (SubtractionFamily 4))"
    and s5: "SubtractionFamily 5 = Some (the (SubtractionFamily 5))"
    by (simp_all add: SubtractionFamily_def generateFamily_def)
  have lo: "(0::int) \<le> 5" "(5::int) < 2 ^ row ctx0" and r: "row ctx0 \<le> 30"
    by (simp_all add: ctx0_def)
  from known_matrix_agrees_with_shader [OF i3 d3 a4 s4 lo r, of 1]
    known_matrix_agrees_with_shader [OF i4 d4 a5 s5 lo r, of 1]
  show ?thesis using i3 d3 a4 s4 i4 d4 a5 s5 lo r by simp
qed


section \<open>A missing auxiliary range\<close>

lemma family_allD:
  assumes "gate \<in> set (family_all family)"
  shows "\<exists>n. family n = Some gate"
proof -
  from assms obtain n where "family n \<noteq> None" and "gate = the (family n)"
    by (auto simp: family_all_def List.map_filter_def)
  then have "family n = Some gate" by auto
  then show ?thesis ..
qed

lemma no_key_families:
  "IncrementFamily n = Some gate \<Longrightarrow> requiredContextKeys gate = []"
  "DecrementFamily n = Some gate \<Longrightarrow> requiredContextKeys gate = []"
  "AdditionFamily n = Some gate \<Longrightarrow> requiredContextKeys gate = []"
  "SubtractionFamily n = Some gate \<Longrightarrow> requiredContextKeys gate = []"
  by (auto simp: IncrementFamily_def DecrementFamily_def AdditionFamily_def SubtractionFamily_def
        generateFamily_def split: if_splits)

lemma key_A_families:
  assumes "PlusAFamily n = Some gate \<or> MinusAFamily n = Some gate
         \<or> FlipBelow n = Some gate \<or> FlipBelow2 n = Some gate"
  shows "requiredContextKeys gate = [''Input Range A'']"
    and "customContextFromGates ctx ''Input Range A'' = None \<Longrightarrow> customShader gate ctx = Inl TypeError"
  using assms
  by (auto simp: PlusAFamily_def MinusAFamily_def FlipBelow_def FlipBelow2_def
        generateFamily_def get_range_def split: if_splits)

lemma key_AB_comparison:
  shows "requiredContextKeys (comparisonGate c) = [''Input Range A'', ''Input Range B'']"
    and "customContextFromGates ctx ''Input Range A'' = None
         \<Longrightarrow> customShader (comparisonGate c) ctx = Inl TypeError"
    and "customContextFromGates ctx ''Input Range B'' = None
         \<Longrightarrow> customShader (comparisonGate c) ctx = Inl TypeError"
  by (auto simp: comparisonGate_def customComparisonShader_def get_range_def split: option.splits)

text \<open>
  C9. For every gate of the arithmetic gates and every key that it declares as
  required, evaluating the gate's shader in a context whose mapping lacks the key fails:
  the call raises an error and produces no program.
\<close>
theorem missing_range_fails:
  assumes "gate \<in> set ArithmeticGates_all"
    and "key \<in> set (requiredContextKeys gate)"
    and "customContextFromGates ctx key = None"
  shows "customShader gate ctx = Inl TypeError"
proof -
  consider (none) n where "IncrementFamily n = Some gate \<or> DecrementFamily n = Some gate
                         \<or> AdditionFamily n = Some gate \<or> SubtractionFamily n = Some gate"
    | (a) n where "PlusAFamily n = Some gate \<or> MinusAFamily n = Some gate
                 \<or> FlipBelow n = Some gate \<or> FlipBelow2 n = Some gate"
    | (ab) c where "gate = comparisonGate c"
  proof -
    from assms(1) have
      "(\<exists>n. IncrementFamily n = Some gate) \<or> (\<exists>n. DecrementFamily n = Some gate)
       \<or> (\<exists>n. AdditionFamily n = Some gate) \<or> (\<exists>n. SubtractionFamily n = Some gate)
       \<or> (\<exists>n. PlusAFamily n = Some gate) \<or> (\<exists>n. MinusAFamily n = Some gate)
       \<or> (\<exists>n. FlipBelow n = Some gate) \<or> (\<exists>n. FlipBelow2 n = Some gate)
       \<or> (\<exists>c. gate = comparisonGate c)"
      unfolding ArithmeticGates_all_def ALessThanB_def AGreaterThanB_def AEqualToB_def
        ANotEqualToB_def ALessThanOrEqualToB_def AGreaterThanOrEqualToB_def set_append
      by (auto dest!: family_allD)
    then show ?thesis using none a ab by blast
  qed
  then show ?thesis
  proof cases
    case none
    then have "requiredContextKeys gate = []" using no_key_families by blast
    then show ?thesis using assms(2) by simp
  next
    case a
    from key_A_families(1)[OF a] assms(2) have "key = ''Input Range A''" by simp
    then show ?thesis using key_A_families(2)[OF a] assms(3) by simp
  next
    case ab
    from key_AB_comparison(1)[of c] assms(2) ab
    have "key = ''Input Range A'' \<or> key = ''Input Range B''" by auto
    then show ?thesis using key_AB_comparison(2,3)[of ctx c] assms(3) ab by auto
  qed
qed

text \<open>The less-than gate in a context that has range A but not range B.\<close>
theorem missing_range_fails_witness:
  "ALessThanB \<in> set ArithmeticGates_all
   \<and> ''Input Range B'' \<in> set (requiredContextKeys ALessThanB)
   \<and> customContextFromGates ctx_only_A ''Input Range B'' = None
   \<and> customShader ALessThanB ctx_only_A = Inl TypeError"
proof -
  have h1: "ALessThanB \<in> set ArithmeticGates_all" by (simp add: ArithmeticGates_all_def)
  have h2: "''Input Range B'' \<in> set (requiredContextKeys ALessThanB)"
    by (simp add: ALessThanB_def comparisonGate_def)
  have h3: "customContextFromGates ctx_only_A ''Input Range B'' = None"
    by (simp add: ctx_only_A_def)
  from missing_range_fails [OF h1 h2 h3] h1 h2 h3 show ?thesis by simp
qed

section \<open>The boolean coder\<close>

lemma mod_glsl_of_nat: "mod_glsl (real k) (real w) = real (k mod w)"
proof -
  have "real_of_int (int k mod int w) = real (k mod w)"
    by (simp flip: of_nat_mod)
  then show ?thesis using mod_glsl_of_int[of "int k" "int w"] by simp
qed

lemma floor_glsl_div_nat: "floor_glsl (real k / real w) = real (k div w)"
proof -
  have "real_of_int (int k div int w) = real (k div w)"
    by (simp flip: of_nat_div)
  then show ?thesis using floor_glsl_div[of "int k" "int w"] by simp
qed

text \<open>
  C7. For every natural number \<open>k\<close> and every texture of width \<open>w\<close> and height
  \<open>h\<close>, \<open>read_name(k)\<close> of the boolean input part samples the texture at
  \<open>((k mod w) + 0.5, floor(k / w) + 0.5)\<close> divided componentwise by \<open>(w, h)\<close> and
  returns 1 exactly when the first component stored there is 1, and 0 for every other
  stored value.
\<close>
theorem bool_read:
  assumes "0 < width texture" and "0 < height texture"
  shows "read_name (boolInputPartGetter texture) (real k) =
           (if fst (texture2D texture
                      ((real (k mod width texture) + 1 / 2) / real (width texture),
                       (real (k div width texture) + 1 / 2) / real (height texture))) = 1
            then 1 else 0)"
  by (simp add: boolInputPartGetter_def Let_def mod_glsl_of_nat floor_glsl_div_nat)

text \<open>
  A texture of 4 by 2 pixels whose pixel \<open>(1, 1)\<close>, sampled at \<open>(1.5 / 4, 1.5 / 2)\<close>,
  holds 1: element 5 reads 1 and element 6 reads 0.
\<close>
theorem bool_read_witness:
  "0 < width tex_4x2 \<and> 0 < height tex_4x2
   \<and> read_name (boolInputPartGetter tex_4x2) (real 5) = 1
   \<and> read_name (boolInputPartGetter tex_4x2) (real 6) = 0"
  using bool_read [of tex_4x2 5] bool_read [of tex_4x2 6]
  by (simp add: tex_4x2_def)

text \<open>
  C8, at a texture of 4 by 2 pixels: \<open>len_name()\<close> of the boolean input part returns
  32, four times the 8 elements that the coder's array has (\<open>powerSizeOverhead\<close> is 0
  and \<open>sizePower\<close> is 3) and that \<open>len_output()\<close> of the output part returns for the
  same texture.
\<close>
theorem bool_len_overcounts:
  "len_name (inputPartGetter BOOL_TYPE_CODER tex_4x2) = 32
   \<and> 2 ^ nat (arrayPowerSizeOfTexture BOOL_TYPE_CODER tex_4x2) = (8::nat)
   \<and> width tex_4x2 * height tex_4x2 = 8
   \<and> len_output (outputPart BOOL_TYPE_CODER tex_4x2) = 8"
  by (simp add: BOOL_TYPE_CODER_def boolInputPartGetter_def BOOL_OUTPUT_PART_def
        arrayPowerSizeOfTexture_def sizePower_def tex_4x2_def Let_def)

text \<open>
  C10. Every pixel that the boolean output part writes is \<open>(v, 0, 0, 0)\<close> with
  \<open>v\<close> 1 or 0, the result of \<open>outputFor\<close> at the index
  \<open>k = (fragY - 0.5) * width + (fragX - 0.5)\<close>; at the centre of the pixel
  \<open>(i, j)\<close> the index is \<open>j * width + i\<close>, and two pixels of the grid with the same
  index are the same pixel.
\<close>
theorem bool_output_pixel:
  fixes i j i' j' :: nat
  shows "main (BOOL_OUTPUT_PART texture) outputFor (fragX, fragY) =
           ((if outputFor ((fragY - 1 / 2) * real (width texture) + (fragX - 1 / 2)) then 1 else 0),
            0, 0, 0)
       \<and> output_index (BOOL_OUTPUT_PART texture) (real i + 1 / 2, real j + 1 / 2)
           = real (j * width texture + i)
       \<and> (i < width texture \<and> i' < width texture
            \<and> output_index (BOOL_OUTPUT_PART texture) (real i + 1 / 2, real j + 1 / 2)
              = output_index (BOOL_OUTPUT_PART texture) (real i' + 1 / 2, real j' + 1 / 2)
           \<longrightarrow> i = i' \<and> j = j')"
proof -
  have idx: "output_index (BOOL_OUTPUT_PART texture) (real a + 1 / 2, real b + 1 / 2)
             = real (b * width texture + a)" for a b
    by (simp add: BOOL_OUTPUT_PART_def Let_def)
  have inj: "i = i' \<and> j = j'"
    if "i < width texture" "i' < width texture" "j * width texture + i = j' * width texture + i'"
  proof -
    have "(j * width texture + i) div width texture = j" using that(1) by simp
    moreover have "(j' * width texture + i') div width texture = j'" using that(2) by simp
    ultimately have "j = j'" using that(3) by simp
    then show ?thesis using that(3) by simp
  qed
  have m: "main (BOOL_OUTPUT_PART texture) outputFor (fragX, fragY) =
           ((if outputFor ((fragY - 1 / 2) * real (width texture) + (fragX - 1 / 2)) then 1 else 0),
            0, 0, 0)"
    by (simp add: BOOL_OUTPUT_PART_def Let_def)
  show ?thesis
    unfolding idx using m inj
    by (simp add: of_nat_eq_iff[where ?'a = real, symmetric]
          del: of_nat_eq_iff of_nat_add of_nat_mult)
qed

text \<open>
  In the texture of 4 by 2 pixels, the pixel \<open>(1, 1)\<close> has index 5 and the pixel
  \<open>(2, 1)\<close> has not.
\<close>
theorem bool_output_pixel_witness:
  "main (BOOL_OUTPUT_PART tex_4x2) (\<lambda>k. k = 5) (3 / 2, 3 / 2) = (1, 0, 0, 0)
   \<and> main (BOOL_OUTPUT_PART tex_4x2) (\<lambda>k. k = 5) (5 / 2, 3 / 2) = (0, 0, 0, 0)
   \<and> output_index (BOOL_OUTPUT_PART tex_4x2) (real 1 + 1 / 2, real 1 + 1 / 2) = real (1 * 4 + 1)
   \<and> (1::nat) < width tex_4x2
   \<and> output_index (BOOL_OUTPUT_PART tex_4x2) (real 1 + 1 / 2, real 1 + 1 / 2)
       = output_index (BOOL_OUTPUT_PART tex_4x2) (real 1 + 1 / 2, real 1 + 1 / 2)"
  using bool_output_pixel [of tex_4x2 "\<lambda>k. k = 5" "3 / 2" "3 / 2" 1 1 1 1]
    bool_output_pixel [of tex_4x2 "\<lambda>k. k = 5" "5 / 2" "3 / 2" 1 1 1 1]
  by (simp add: tex_4x2_def)

end
